theory Spec2Isabelle
  imports Complex_Main "HOL-Library.Sublist" "HOL-Library.List_Lexorder" "HOL-Library.Char_ord"
begin

text \<open>
  A model of the five scripts of PyIntfLab: the worker-count policy, the extraction of
  Sentinel-1 archives, the enumeration and download of orbit files, the sequential step
  runner, and the two wrappers that validate coordinates before they start an external
  tool.

  The scripts act on the outside world, so every function of the model takes what the
  world answers as an argument (whether a file opens, what a directory holds, how a
  command exits, what the user types) and returns what it did together with its result.
  A function that can raise returns a sum, with the exception on the left. A
  \<open>Parallel\<close> call is read as one call per task, with the results in submission order,
  and as raising when a task raises. Strings are byte strings; file names are taken to be
  ASCII. Command-line parsing is not part of the model: an entry point starts from its
  parsed arguments.
\<close>

section \<open>Python primitives used by the scripts\<close>

text \<open>
  Exceptions are values. Only the classes that the scripts raise themselves, or tell
  apart in an \<open>except\<close> clause, are kept distinct.
\<close>

datatype exn =
    FileNotFoundError
  | NotADirectoryError
  | CalledProcessError int
  | ValueError
  | IndexError
  | OverflowError
  | NameError
  | AttributeError
  | OtherError

text \<open>
  \<open>int(x)\<close> on a float truncates towards zero. Floats are read as the real numbers they
  denote.
\<close>

definition py_trunc :: "real \<Rightarrow> int" where
  "py_trunc r = (if 0 \<le> r then \<lfloor>r\<rfloor> else \<lceil>r\<rceil>)"

section \<open>Worker-count policy\<close>

text \<open>
  \<open>download_S1_SLC_orbit.py\<close>, line 87: \<^verbatim>\<open>njobs = min(max(cpu_count() // 4, 2), 8)\<close>.
  The CPU count is a positive machine quantity, hence a natural number.
\<close>

definition orbit_njobs :: "nat \<Rightarrow> int" where
  "orbit_njobs cpu_count = min (max (int cpu_count div 4) 2) 8"

text \<open>
  \<open>unzip_S1_SLC.py\<close>, lines 99-100:
  \<^verbatim>\<open>if n_jobs is None: n_jobs = min(max(int(cpu_count() / 4), 2), 8)\<close>.
  Here the quotient is a true division followed by \<open>int\<close>. Dividing by four is exact
  in floating point for every count below \<open>2 ^ 53\<close>, and above 32 the clamp returns 8
  whatever the rounding, so the quotient is taken over the reals.
\<close>

definition unzip_njobs :: "int option \<Rightarrow> nat \<Rightarrow> int" where
  "unzip_njobs n_jobs cpu_count =
     (case n_jobs of
        None \<Rightarrow> min (max (py_trunc (real cpu_count / 4)) 2) 8
      | Some n \<Rightarrow> n)"

section \<open>Paths and the file system\<close>

text \<open>
  \<open>str.split(c)\<close> for a one-character separator: the pieces between the separators, one
  piece (the empty string) for the empty string.
\<close>

fun split_char :: "char \<Rightarrow> string \<Rightarrow> string list" where
  "split_char c [] = [] # []"
| "split_char c (x # xs) =
     (if x = c then [] # split_char c xs
      else (case split_char c xs of
              [] \<Rightarrow> [x] # []
            | w # ws \<Rightarrow> (x # w) # ws))"

text \<open>\<open>str.rfind(c)\<close>: the last index of \<open>c\<close>, or \<open>-1\<close>.\<close>

definition rfind :: "char \<Rightarrow> string \<Rightarrow> int" where
  "rfind c s =
     (case filter (\<lambda>i. s ! i = c) (rev [0..<length s]) of
        [] \<Rightarrow> - 1
      | i # rest \<Rightarrow> int i)"

text \<open>
  A \<open>pathlib\<close> POSIX path: its root (empty, one slash or two slashes) and its
  components. Parsing drops empty components and \<open>.\<close>; \<open>..\<close> is kept.
\<close>

record ppath =
  anchor :: string
  comps :: "string list"

definition Path :: "string \<Rightarrow> ppath" where
  "Path s =
     \<lparr>anchor =
        (if take 1 s \<noteq> ''/'' then ''''
         else if take 1 (drop 1 s) \<noteq> ''/'' \<or> take 1 (drop 2 s) = ''/'' then ''/''
         else ''//''),
      comps = filter (\<lambda>x. x \<noteq> '''' \<and> x \<noteq> ''.'') (split_char CHR ''/'' s)\<rparr>"

definition path_name :: "ppath \<Rightarrow> string" where
  "path_name p = (if comps p = [] then '''' else last (comps p))"

definition path_stem :: "ppath \<Rightarrow> string" where
  "path_stem p =
     (let name = path_name p; i = rfind CHR ''.'' name
      in if 0 < i \<and> i < int (length name) - 1 then take (nat i) name else name)"

text \<open>\<open>p / s\<close>: a rooted right operand replaces the left one.\<close>

definition path_div :: "ppath \<Rightarrow> string \<Rightarrow> ppath" where
  "path_div p s =
     (let q = Path s
      in if anchor q \<noteq> '''' then q else p\<lparr>comps := comps p @ comps q\<rparr>)"

text \<open>
  The part of the outside world that extraction touches: the paths that exist, and the
  archive members handed to \<open>zip_ref.extract\<close> so far, in call order.
\<close>

record world =
  paths :: "ppath list"
  extract_calls :: "string list"

definition path_exists :: "world \<Rightarrow> ppath \<Rightarrow> bool" where
  "path_exists w p \<longleftrightarrow> p \<in> set (paths w)"

definition is_under :: "ppath \<Rightarrow> ppath \<Rightarrow> bool" where
  "is_under p q \<longleftrightarrow> anchor q = anchor p \<and> prefix (comps p) (comps q)"

text \<open>A path together with all its ancestors, as \<open>os.makedirs\<close> creates them.\<close>

definition with_parents :: "ppath \<Rightarrow> ppath list" where
  "with_parents p = map (\<lambda>k. p\<lparr>comps := take k (comps p)\<rparr>) [0..<Suc (length (comps p))]"

definition create_file :: "world \<Rightarrow> ppath \<Rightarrow> world" where
  "create_file w p = w\<lparr>paths := p # paths w\<rparr>"

definition makedirs :: "world \<Rightarrow> ppath \<Rightarrow> world" where
  "makedirs w p = w\<lparr>paths := with_parents p @ paths w\<rparr>"

text \<open>
  \<open>shutil.rmtree(p, ignore_errors=True)\<close> never raises; it is taken to remove \<open>p\<close> and
  everything below it.
\<close>

definition rmtree :: "world \<Rightarrow> ppath \<Rightarrow> world" where
  "rmtree w p = w\<lparr>paths := filter (\<lambda>q. \<not> is_under p q) (paths w)\<rparr>"

section \<open>Archive extraction (\<open>unzip_S1_SLC.py\<close>)\<close>

text \<open>
  What \<open>zip_ref.extract(file_name, path=target_dir)\<close> does with one member is decided
  by the archive and the disk, not by the script: it returns, or it raises before anything
  was written, or it raises after the member's directories and a possibly truncated file
  were created.
\<close>

datatype extract_result = Extracted | RaisesEarly | RaisesPartway

text \<open>
  The library strips empty, \<open>.\<close> and \<open>..\<close> components from a member name and creates the
  result below the target, with its parent directories.
\<close>

definition member_path :: "ppath \<Rightarrow> string \<Rightarrow> ppath" where
  "member_path target file_name =
     target\<lparr>comps := comps target
        @ filter (\<lambda>x. x \<noteq> '''' \<and> x \<noteq> ''.'' \<and> x \<noteq> ''..'') (split_char CHR ''/'' file_name)\<rparr>"

definition write_member :: "world \<Rightarrow> ppath \<Rightarrow> string \<Rightarrow> world" where
  "write_member w target file_name = makedirs w (member_path target file_name)"

text \<open>
  The environment of one extraction task: whether the two \<open>open\<close> calls on the log file
  succeed, and the archive (\<open>None\<close> when \<open>zipfile.ZipFile\<close> raises, otherwise its name
  list with the fate of each member).
\<close>

record unzip_env =
  log_open_w :: bool
  archive :: "(string \<times> extract_result) list option"
  log_open_a :: bool

text \<open>Lines 55-57, the loop over \<open>file_list\<close>; \<open>False\<close> stands for a raised exception.\<close>

fun extract_loop :: "world \<Rightarrow> ppath \<Rightarrow> (string \<times> extract_result) list \<Rightarrow> bool \<times> world" where
  "extract_loop w target [] = (True, w)"
| "extract_loop w target ((file_name, r) # rest) =
     (let w' = w\<lparr>extract_calls := extract_calls w @ [file_name]\<rparr>
      in case r of
           Extracted \<Rightarrow> extract_loop (write_member w' target file_name) target rest
         | RaisesEarly \<Rightarrow> (False, w')
         | RaisesPartway \<Rightarrow> (False, write_member w' target file_name))"

text \<open>Lines 44-62, the \<open>try\<close> block; \<open>False\<close> again stands for a raised exception.\<close>

definition unzip_try :: "unzip_env \<Rightarrow> world \<Rightarrow> ppath \<Rightarrow> ppath \<Rightarrow> bool \<times> world" where
  "unzip_try env w log_file target_path =
     (if \<not> log_open_w env then (False, w)
      else let w1 = create_file w log_file
           in case archive env of
                None \<Rightarrow> (False, w1)
              | Some file_list \<Rightarrow> extract_loop w1 target_path file_list)"

definition safe_dir_of :: "string \<Rightarrow> string \<Rightarrow> ppath" where
  "safe_dir_of zip_file target_dir =
     path_div (Path target_dir) (path_stem (Path zip_file) @ ''.SAFE'')"

definition log_file_of :: "string \<Rightarrow> string \<Rightarrow> ppath" where
  "log_file_of zip_file target_dir =
     path_div (Path target_dir) (''unzip_'' @ path_stem (Path zip_file) @ ''.log'')"

text \<open>
  Lines 41-78, everything after the skip test. An exception raised inside the handler
  (its own \<open>open\<close> of the log) leaves the function.
\<close>

definition unzip_attempt :: "unzip_env \<Rightarrow> world \<Rightarrow> string \<Rightarrow> string \<Rightarrow> (exn + bool) \<times> world" where
  "unzip_attempt env w zip_file target_dir =
     (let safe_dir = safe_dir_of zip_file target_dir;
          log_file = log_file_of zip_file target_dir
      in case unzip_try env w log_file (Path target_dir) of
           (True, w1) \<Rightarrow> (Inr True, w1)
         | (False, w1) \<Rightarrow>
             if \<not> log_open_a env then (Inl OtherError, w1)
             else let w2 = create_file w1 log_file;
                      w3 = (if path_exists w2 safe_dir then rmtree w2 safe_dir else w2)
                  in (Inr False, w3))"

text \<open>Lines 19-78.\<close>

definition unzip_S1_SLC :: "unzip_env \<Rightarrow> world \<Rightarrow> string \<Rightarrow> string \<Rightarrow> (exn + bool) \<times> world" where
  "unzip_S1_SLC env w zip_file target_dir =
     (if path_exists w (safe_dir_of zip_file target_dir) then (Inr True, w)
      else unzip_attempt env w zip_file target_dir)"

text \<open>
  \<open>Parallel(n_jobs)(delayed(unzip_S1_SLC)(z, target_dir) for z in zip_files)\<close>: one call
  per element, results in submission order; an exception that leaves a task is raised
  again by the \<open>Parallel\<close> call. Task number \<open>i\<close> runs in environment \<open>envs i\<close>.
\<close>

fun run_unzip_tasks ::
  "(nat \<Rightarrow> unzip_env) \<Rightarrow> nat \<Rightarrow> world \<Rightarrow> string list \<Rightarrow> string \<Rightarrow> (exn + bool list) \<times> world" where
  "run_unzip_tasks envs i w [] target_dir = (Inr [], w)"
| "run_unzip_tasks envs i w (z # zs) target_dir =
     (case unzip_S1_SLC (envs i) w z target_dir of
        (Inl e, w') \<Rightarrow> (Inl e, w')
      | (Inr b, w') \<Rightarrow>
          (case run_unzip_tasks envs (Suc i) w' zs target_dir of
             (Inl e, w'') \<Rightarrow> (Inl e, w'')
           | (Inr bs, w'') \<Rightarrow> (Inr (b # bs), w'')))"

text \<open>\<open>sum\<close> over a list of booleans counts the \<open>True\<close>s.\<close>

definition py_sum :: "bool list \<Rightarrow> int" where
  "py_sum bs = sum_list (map (\<lambda>b. if b then 1 else 0) bs)"

text \<open>
  Lines 81-122. \<open>Parallel\<close> refuses \<open>n_jobs = 0\<close>. The pair returned is
  \<open>(successful, failed)\<close>.
\<close>

definition unzip_S1_SLC_list ::
  "(nat \<Rightarrow> unzip_env) \<Rightarrow> world \<Rightarrow> string list \<Rightarrow> string \<Rightarrow> int option \<Rightarrow> nat
     \<Rightarrow> (exn + int \<times> int) \<times> world" where
  "unzip_S1_SLC_list envs w zip_files target_dir n_jobs cpu_count =
     (let w0 = makedirs w (Path target_dir)
      in if unzip_njobs n_jobs cpu_count = 0 then (Inl ValueError, w0)
         else case run_unzip_tasks envs 0 w0 zip_files target_dir of
                (Inl e, w') \<Rightarrow> (Inl e, w')
              | (Inr results, w') \<Rightarrow>
                  (let successful = py_sum results;
                       failed = int (length results) - successful
                   in (Inr (successful, failed), w')))"

section \<open>Strings and numbers\<close>

text \<open>
  Python slicing \<open>xs[a:b]\<close>: a negative bound counts from the end, and both bounds are
  clamped to the list.
\<close>

definition slice_bound :: "nat \<Rightarrow> int \<Rightarrow> nat" where
  "slice_bound n i = (if i < 0 then nat (max 0 (int n + i)) else min n (nat i))"

definition py_slice :: "'a list \<Rightarrow> int \<Rightarrow> int \<Rightarrow> 'a list" where
  "py_slice xs a b =
     (let lo = slice_bound (length xs) a; hi = slice_bound (length xs) b
      in take (hi - lo) (drop lo xs))"

text \<open>\<open>sub in s\<close> for strings: \<open>sub\<close> occurs in \<open>s\<close> as a contiguous piece.\<close>

fun py_in :: "string \<Rightarrow> string \<Rightarrow> bool" where
  "py_in sub [] = (sub = [])"
| "py_in sub (c # cs) = (prefix sub (c # cs) \<or> py_in sub cs)"

text \<open>\<open>os.path.basename\<close>: what follows the last slash.\<close>

definition os_path_basename :: "string \<Rightarrow> string" where
  "os_path_basename p = last (split_char CHR ''/'' p)"

text \<open>\<open>os.path.join\<close> of two pieces.\<close>

definition os_path_join :: "string \<Rightarrow> string \<Rightarrow> string" where
  "os_path_join a b =
     (if take 1 b = ''/'' then b
      else if a = '''' \<or> last a = CHR ''/'' then a @ b
      else a @ ''/'' @ b)"

text \<open>Decimal digits of a natural number, and \<open>str\<close> of an integer.\<close>

definition digit_char :: "nat \<Rightarrow> char" where
  "digit_char d = char_of (48 + d)"

fun str_nat :: "nat \<Rightarrow> string" where
  "str_nat n = (if n < 10 then [digit_char n] else str_nat (n div 10) @ [digit_char (n mod 10)])"

declare str_nat.simps [simp del]

definition str_int :: "int \<Rightarrow> string" where
  "str_int i = (if i < 0 then ''-'' @ str_nat (nat (- i)) else str_nat (nat i))"

text \<open>The format \<open>{i:02d}\<close>: zero padding to width two, the sign counted in the width.\<close>

definition zfill :: "nat \<Rightarrow> string \<Rightarrow> string" where
  "zfill n s = replicate (n - length s) CHR ''0'' @ s"

definition fmt_02d :: "int \<Rightarrow> string" where
  "fmt_02d i = (if i < 0 then ''-'' @ zfill 1 (str_nat (nat (- i))) else zfill 2 (str_nat (nat i)))"

text \<open>
  The exit status of a script: the argument of \<open>sys.exit\<close>, 0 when the module body runs to
  its end, and 1 when an exception is not caught.
\<close>

definition exit_status :: "exn + int \<Rightarrow> int" where
  "exit_status r = (case r of Inl e \<Rightarrow> 1 | Inr code \<Rightarrow> code)"

section \<open>The sequential step runner (\<open>RunStack.py\<close>)\<close>

text \<open>
  What the script sees of a directory: whether the path exists, whether it is a
  directory, and the entries a glob pattern matches there, as path strings.
\<close>

record dir_view =
  dir_exists :: bool
  dir_is_dir :: bool
  dir_glob :: "string list"

text \<open>Lines 18-42.\<close>

definition find_run_files :: "dir_view \<Rightarrow> exn + string list" where
  "find_run_files v =
     (if \<not> dir_exists v then Inl FileNotFoundError
      else if \<not> dir_is_dir v then Inl NotADirectoryError
      else if dir_glob v = [] then Inl FileNotFoundError
      else Inr (sort (dir_glob v)))"

text \<open>
  One pass through the \<open>with\<close> block of lines 111-118: an exception other than
  \<open>CalledProcessError\<close> is raised (by \<open>open\<close>, or by \<open>subprocess.run\<close> when \<open>run.py\<close> is
  missing), or the command runs and exits with a status. With \<open>check=True\<close> a non-zero
  status is the exception \<open>CalledProcessError\<close>.
\<close>

datatype run_outcome = Raises exn | Exited int

definition step_succeeds :: "run_outcome \<Rightarrow> bool" where
  "step_succeeds r = (case r of Raises e \<Rightarrow> False | Exited rc \<Rightarrow> rc = 0)"

record invocation =
  step :: int
  script :: string
  procs :: int

record runstack_env =
  run_dir :: "string \<Rightarrow> dir_view"
  cpu_count :: nat
  answer :: "exn + string"
  step_outcome :: "int \<Rightarrow> run_outcome"

text \<open>Line 93.\<close>

definition matched_scripts :: "string list \<Rightarrow> int \<Rightarrow> string list" where
  "matched_scripts scripts i =
     filter (\<lambda>s. py_in (''run_'' @ fmt_02d i) (os_path_basename s)) scripts"

text \<open>
  Lines 91-133, the loop over the step numbers. The result says whether the loop ran to
  its end (\<open>False\<close>: a handler returned), how often \<open>success_count\<close> was incremented, and
  for which steps the \<open>try\<close> block was entered, in order, with the script and the core
  count of the command line \<open>run.py --input script -p cores\<close>.
\<close>

fun run_steps ::
  "(int \<Rightarrow> run_outcome) \<Rightarrow> int \<Rightarrow> string list \<Rightarrow> int list \<Rightarrow> bool \<times> nat \<times> invocation list" where
  "run_steps outcome cores scripts [] = (True, 0, [])"
| "run_steps outcome cores scripts (i # rest) =
     (case matched_scripts scripts i of
        [] \<Rightarrow> run_steps outcome cores scripts rest
      | s # others \<Rightarrow>
          (let call = \<lparr>step = i, script = s, procs = cores\<rparr>
           in if step_succeeds (outcome i)
              then (case run_steps outcome cores scripts rest of
                      (finished, success_count, started) \<Rightarrow>
                        (finished, Suc success_count, call # started))
              else (False, 0, [call])))"

text \<open>Line 142, the list whose length the verdict compares with.\<close>

definition found_among_expected :: "string list \<Rightarrow> int \<Rightarrow> string list" where
  "found_among_expected scripts expected_files =
     filter (\<lambda>s. list_ex (\<lambda>i. py_in (''run_'' @ fmt_02d i) (os_path_basename s))
                    [1..expected_files]) scripts"

text \<open>
  Lines 45-142. \<open>answer\<close> is the value of \<open>input(...).lower().strip()\<close>, or the exception
  \<open>input\<close> raises. The second component lists the steps that were started. Creating the
  \<open>logs\<close> directory (line 85) is taken to succeed.
\<close>

definition run_stack_processing ::
  "runstack_env \<Rightarrow> string \<Rightarrow> int option \<Rightarrow> int \<Rightarrow> (exn + bool) \<times> invocation list" where
  "run_stack_processing env run_files_dir cores expected_files =
     (let cores' = (case cores of
                      None \<Rightarrow> min (max (int (cpu_count env) div 2) 1) 8
                    | Some c \<Rightarrow> c)
      in case find_run_files (run_dir env run_files_dir) of
           Inl e \<Rightarrow> (Inr False, [])
         | Inr scripts \<Rightarrow>
             (let go =
                (case run_steps (step_outcome env) cores' scripts [1..expected_files] of
                   (finished, success_count, started) \<Rightarrow>
                     if \<not> finished then (Inr False, started)
                     else (Inr (success_count = length (found_among_expected scripts expected_files)),
                           started))
              in if int (length scripts) \<noteq> expected_files
                 then (case answer env of
                         Inl e \<Rightarrow> (Inl e, [])
                       | Inr response \<Rightarrow> if response \<noteq> ''y'' then (Inr False, []) else go)
                 else go))"

text \<open>Lines 161-172.\<close>

definition runstack_main :: "runstack_env \<Rightarrow> string \<Rightarrow> int option \<Rightarrow> int \<Rightarrow> int" where
  "runstack_main env run_files_dir cores expected_files =
     exit_status
       (case fst (run_stack_processing env run_files_dir cores expected_files) of
          Inl e \<Rightarrow> Inl e
        | Inr success \<Rightarrow> Inr (if success then 0 else 1))"

section \<open>Coordinate validation and the two tool wrappers\<close>

text \<open>
  The coordinates are parsed by \<open>argparse\<close> with \<open>type=float\<close>: a finite number, an
  infinity or a NaN. Comparisons with a NaN are false.
\<close>

datatype pyfloat = Fin real | PosInf | NegInf | NaN

fun f_le :: "pyfloat \<Rightarrow> pyfloat \<Rightarrow> bool" where
  "f_le NaN y = False"
| "f_le x NaN = False"
| "f_le NegInf y = True"
| "f_le x PosInf = True"
| "f_le (Fin a) (Fin b) = (a \<le> b)"
| "f_le PosInf y = False"
| "f_le x NegInf = False"

record coord_args =
  lat_min :: pyfloat
  lat_max :: pyfloat
  lon_min :: pyfloat
  lon_max :: pyfloat

text \<open>
  \<open>download_S1_SLC_dem.py\<close>, lines 96-114, and \<open>Stack.py\<close>, lines 165-183: the two
  functions are the same text. \<open>a >= b\<close> is \<open>f_le b a\<close>.
\<close>

definition validate_coordinates :: "coord_args \<Rightarrow> bool" where
  "validate_coordinates args =
     (if f_le (lat_max args) (lat_min args) then False
      else if f_le (lon_max args) (lon_min args) then False
      else if \<not> (f_le (Fin (- 90)) (lat_min args) \<and> f_le (lat_min args) (Fin 90)
                  \<and> f_le (Fin (- 90)) (lat_max args) \<and> f_le (lat_max args) (Fin 90)) then False
      else if \<not> (f_le (Fin (- 180)) (lon_min args) \<and> f_le (lon_min args) (Fin 180)
                  \<and> f_le (Fin (- 180)) (lon_max args) \<and> f_le (lon_max args) (Fin 180)) then False
      else True)"

text \<open>\<open>Stack.py\<close>, lines 186-192.\<close>

definition validate_parameters :: "int \<Rightarrow> int \<Rightarrow> bool" where
  "validate_parameters nalks nrlks = (if nalks \<le> 0 \<or> nrlks \<le> 0 then False else True)"

text \<open>
  The operations a wrapper performs on the outside world, in call order: creating a
  directory, changing into one, listing one, opening a log file, starting a command.
\<close>

datatype effect =
    MakeDir string
  | ChangeDir string
  | ListDir string
  | OpenLog ppath
  | RunCommand "string list"

text \<open>\<open>int(float(x))\<close>.\<close>

definition py_int_of_float :: "pyfloat \<Rightarrow> exn + int" where
  "py_int_of_float x =
     (case x of
        Fin r \<Rightarrow> Inr (py_trunc r)
      | PosInf \<Rightarrow> Inl OverflowError
      | NegInf \<Rightarrow> Inl OverflowError
      | NaN \<Rightarrow> Inl ValueError)"

record dem_env =
  dem_log_error :: "exn option"
  dem_proc :: run_outcome

text \<open>
  \<open>download_S1_SLC_dem.py\<close>, lines 16-73. Every exception inside the \<open>try\<close> block gives
  \<open>False\<close>; the conversions of lines 33-36 are outside it.
\<close>

definition download_S1_SLC_dem ::
  "dem_env \<Rightarrow> coord_args \<Rightarrow> string \<Rightarrow> (exn + bool) \<times> effect list" where
  "download_S1_SLC_dem env args dem_dir =
     (let setup = [MakeDir dem_dir, ChangeDir dem_dir]
      in case py_int_of_float (lat_min args) of Inl e \<Rightarrow> (Inl e, setup) | Inr a \<Rightarrow>
         case py_int_of_float (lat_max args) of Inl e \<Rightarrow> (Inl e, setup) | Inr b \<Rightarrow>
         case py_int_of_float (lon_min args) of Inl e \<Rightarrow> (Inl e, setup) | Inr c \<Rightarrow>
         case py_int_of_float (lon_max args) of Inl e \<Rightarrow> (Inl e, setup) | Inr d \<Rightarrow>
         (let cmd = [''dem.py'', ''-a'', ''stitch'', ''-b'',
                     str_int (a - 1), str_int (b + 1), str_int (c - 1), str_int (d + 1),
                     ''-r'', ''-s'', ''1'', ''-c''];
              log_file = path_div (Path dem_dir) ''dem.log''
          in case dem_log_error env of
               Some e \<Rightarrow> (Inr False, setup @ [OpenLog log_file])
             | None \<Rightarrow> (Inr (step_succeeds (dem_proc env)),
                        setup @ [OpenLog log_file, RunCommand cmd])))"

text \<open>\<open>download_S1_SLC_dem.py\<close>, lines 117-134: the exit status and what was done.\<close>

definition dem_main :: "dem_env \<Rightarrow> coord_args \<Rightarrow> string \<Rightarrow> int \<times> effect list" where
  "dem_main env args dem_dir =
     (if \<not> validate_coordinates args then (1, [])
      else case download_S1_SLC_dem env args dem_dir of
             (Inl e, done) \<Rightarrow> (exit_status (Inl e), done)
           | (Inr success, done) \<Rightarrow> (exit_status (Inr (if success then 0 else 1)), done))"

text \<open>\<open>Stack.py\<close>, lines 16-43.\<close>

definition find_dem_file :: "dir_view \<Rightarrow> exn + string" where
  "find_dem_file v =
     (if \<not> dir_exists v then Inl FileNotFoundError
      else if \<not> dir_is_dir v then Inl NotADirectoryError
      else (case dir_glob v of
              [] \<Rightarrow> Inl FileNotFoundError
            | f # others \<Rightarrow> Inr f))"

text \<open>
  \<open>float_text\<close> is Python's rendering of a float inside an f-string, which the bounding
  box of line 71 is made of.
\<close>

record stack_env =
  dem_view :: "string \<Rightarrow> dir_view"
  float_text :: "pyfloat \<Rightarrow> string"
  stack_proc :: run_outcome

text \<open>\<open>Stack.py\<close>, lines 46-125. \<open>find_dem_file\<close> is called outside the \<open>try\<close> block.\<close>

definition stack_sentinel ::
  "stack_env \<Rightarrow> coord_args \<Rightarrow> string \<Rightarrow> string \<Rightarrow> string \<Rightarrow> string \<Rightarrow> int \<Rightarrow> int \<Rightarrow> string
     \<Rightarrow> (exn + bool) \<times> effect list" where
  "stack_sentinel env args dem_dir aux_dir slc_dir orbits_dir nalks nrlks process_dir =
     (let setup = [MakeDir process_dir, ListDir dem_dir]
      in case find_dem_file (dem_view env dem_dir) of
           Inl e \<Rightarrow> (Inl e, setup)
         | Inr dem_file \<Rightarrow>
             (let bbox = float_text env (lat_min args) @ '' '' @ float_text env (lat_max args)
                         @ '' '' @ float_text env (lon_min args) @ '' ''
                         @ float_text env (lon_max args);
                  cmd = [''stackSentinel.py'', ''-b'', bbox, ''-d'', dem_file, ''-a'', aux_dir,
                         ''-s'', slc_dir, ''-o'', orbits_dir, ''-z'', str_int nalks,
                         ''-r'', str_int nrlks, ''-f'', ''0.8'', ''-c'', ''1'']
              in (Inr (step_succeeds (stack_proc env)), setup @ [RunCommand cmd])))"

text \<open>\<open>Stack.py\<close>, lines 195-213.\<close>

definition stack_main ::
  "stack_env \<Rightarrow> coord_args \<Rightarrow> string \<Rightarrow> string \<Rightarrow> string \<Rightarrow> string \<Rightarrow> int \<Rightarrow> int \<Rightarrow> string
     \<Rightarrow> int \<times> effect list" where
  "stack_main env args dem_dir aux_dir slc_dir orbits_dir nalks nrlks process_dir =
     (if \<not> validate_coordinates args then (1, [])
      else if \<not> validate_parameters nalks nrlks then (1, [])
      else case stack_sentinel env args dem_dir aux_dir slc_dir orbits_dir nalks nrlks process_dir of
             (Inl e, done) \<Rightarrow> (exit_status (Inl e), done)
           | (Inr success, done) \<Rightarrow> (exit_status (Inr (if success then 0 else 1)), done))"

section \<open>Orbit download (\<open>download_S1_SLC_orbit.py\<close>)\<close>

text \<open>
  \<open>int(s)\<close> for a string of ASCII characters: surrounding white space, an optional sign,
  then decimal digits, single underscores allowed between digits.
\<close>

definition is_space :: "char \<Rightarrow> bool" where
  "is_space c = (let n = (of_char c :: nat) in (9 \<le> n \<and> n \<le> 13) \<or> (28 \<le> n \<and> n \<le> 32))"

definition is_digit :: "char \<Rightarrow> bool" where
  "is_digit c = (let n = (of_char c :: nat) in 48 \<le> n \<and> n \<le> 57)"

definition py_strip :: "string \<Rightarrow> string" where
  "py_strip s = rev (dropWhile is_space (rev (dropWhile is_space s)))"

fun parse_digits :: "nat \<Rightarrow> bool \<Rightarrow> string \<Rightarrow> nat option" where
  "parse_digits acc after_digit [] = (if after_digit then Some acc else None)"
| "parse_digits acc after_digit (c # cs) =
     (if is_digit c then parse_digits (10 * acc + (of_char c - 48)) True cs
      else if c = CHR ''_'' \<and> after_digit then parse_digits acc False cs
      else None)"

definition py_int :: "string \<Rightarrow> exn + int" where
  "py_int s =
     (let t = py_strip s;
          negative = (take 1 t = ''-'');
          body = (if take 1 t = ''-'' \<or> take 1 t = ''+'' then drop 1 t else t)
      in case parse_digits 0 False body of
           None \<Rightarrow> Inl ValueError
         | Some n \<Rightarrow> Inr (if negative then - int n else int n))"

text \<open>Calendar dates as \<open>datetime\<close> has them: years 1 to 9999, proleptic Gregorian.\<close>

record date =
  year :: int
  month :: int
  day :: int

definition is_leap :: "int \<Rightarrow> bool" where
  "is_leap y \<longleftrightarrow> y mod 4 = 0 \<and> (y mod 100 \<noteq> 0 \<or> y mod 400 = 0)"

definition days_in_month :: "int \<Rightarrow> int \<Rightarrow> int" where
  "days_in_month y m =
     (if m = 2 then (if is_leap y then 29 else 28)
      else if m = 4 \<or> m = 6 \<or> m = 9 \<or> m = 11 then 30
      else 31)"

definition datetime_new :: "int \<Rightarrow> int \<Rightarrow> int \<Rightarrow> exn + date" where
  "datetime_new y m d =
     (if 1 \<le> y \<and> y \<le> 9999 \<and> 1 \<le> m \<and> m \<le> 12 \<and> 1 \<le> d \<and> d \<le> days_in_month y m
      then Inr \<lparr>year = y, month = m, day = d\<rparr>
      else Inl ValueError)"

text \<open>\<open>dt - timedelta(days=1)\<close> and \<open>dt + timedelta(days=1)\<close>.\<close>

definition prev_day :: "date \<Rightarrow> exn + date" where
  "prev_day dt =
     (if 1 < day dt then Inr (dt\<lparr>day := day dt - 1\<rparr>)
      else if 1 < month dt
        then Inr (dt\<lparr>month := month dt - 1, day := days_in_month (year dt) (month dt - 1)\<rparr>)
      else if 1 < year dt then Inr \<lparr>year = year dt - 1, month = 12, day = 31\<rparr>
      else Inl OverflowError)"

definition next_day :: "date \<Rightarrow> exn + date" where
  "next_day dt =
     (if day dt < days_in_month (year dt) (month dt) then Inr (dt\<lparr>day := day dt + 1\<rparr>)
      else if month dt < 12 then Inr (dt\<lparr>month := month dt + 1, day := 1\<rparr>)
      else if year dt < 9999 then Inr \<lparr>year = year dt + 1, month = 1, day = 1\<rparr>
      else Inl OverflowError)"

text \<open>Lines 78-79: the year as it is, month and day with two digits.\<close>

definition date_text :: "date \<Rightarrow> string" where
  "date_text dt = str_int (year dt) @ fmt_02d (month dt) @ fmt_02d (day dt)"

text \<open>
  Lines 73-79: from the path of a local file to the texts of the day before and the day
  after its acquisition date.
\<close>

definition file_window :: "string \<Rightarrow> exn + string \<times> string" where
  "file_window file =
     (let pieces = split_char CHR ''_'' file
      in if length pieces < 5 then Inl IndexError
         else
           (let date_str = take 8 (pieces ! (length pieces - 5))
            in case py_int (take 4 date_str) of Inl e \<Rightarrow> Inl e | Inr y \<Rightarrow>
               case py_int (py_slice date_str 4 6) of Inl e \<Rightarrow> Inl e | Inr m \<Rightarrow>
               case py_int (py_slice date_str 6 8) of Inl e \<Rightarrow> Inl e | Inr d \<Rightarrow>
               case datetime_new y m d of Inl e \<Rightarrow> Inl e | Inr dt \<Rightarrow>
               case prev_day dt of Inl e \<Rightarrow> Inl e | Inr prev_dt \<Rightarrow>
               case next_day dt of Inl e \<Rightarrow> Inl e | Inr next_dt \<Rightarrow>
                 Inr (date_text prev_dt, date_text next_dt)))"

text \<open>Line 81, the test on one entry of the remote listing.\<close>

definition window_match :: "string \<Rightarrow> string \<Rightarrow> string \<Rightarrow> bool" where
  "window_match prev_dt_str next_dt_str filename \<longleftrightarrow>
     py_slice filename (- 35) (- 27) = prev_dt_str
     \<and> py_slice filename (- 19) (- 11) = next_dt_str"

definition ORBIT_URL :: string where
  "ORBIT_URL = ''https://s1qc.asf.alaska.edu/aux_poeorb/''"

text \<open>A download task: the URL and the path to save to (lines 82-85).\<close>

type_synonym task = "string \<times> string"

definition orbit_task :: "string \<Rightarrow> string \<Rightarrow> task" where
  "orbit_task orbits_dir filename = (ORBIT_URL @ filename, os_path_join orbits_dir filename)"

text \<open>Lines 80-85, the loop over the listing, appending to \<open>download_tasks\<close>.\<close>

fun match_loop :: "string \<Rightarrow> string \<Rightarrow> string \<Rightarrow> string list \<Rightarrow> task list \<Rightarrow> task list" where
  "match_loop prev_dt_str next_dt_str orbits_dir [] download_tasks = download_tasks"
| "match_loop prev_dt_str next_dt_str orbits_dir (filename # rest) download_tasks =
     match_loop prev_dt_str next_dt_str orbits_dir rest
       (if window_match prev_dt_str next_dt_str filename
        then download_tasks @ [orbit_task orbits_dir filename]
        else download_tasks)"

text \<open>Lines 72-85, the loop over the local files.\<close>

fun file_loop :: "string list \<Rightarrow> string \<Rightarrow> string list \<Rightarrow> task list \<Rightarrow> exn + task list" where
  "file_loop lst orbits_dir [] download_tasks = Inr download_tasks"
| "file_loop lst orbits_dir (file # files) download_tasks =
     (case file_window file of
        Inl e \<Rightarrow> Inl e
      | Inr (prev_dt_str, next_dt_str) \<Rightarrow>
          file_loop lst orbits_dir files
            (match_loop prev_dt_str next_dt_str orbits_dir lst download_tasks))"

text \<open>
  Lines 39-56. The body of the \<open>try\<close> block either saves the file or raises; the handler
  prints and the function returns \<open>None\<close> in both cases. The second component is the line
  printed.
\<close>

datatype fetch_outcome = Saved | FetchRaises exn

datatype message = Downloaded string | FailedToDownload string exn

definition download_file :: "fetch_outcome \<Rightarrow> task \<Rightarrow> (exn + unit) \<times> message" where
  "download_file outcome task =
     (case task of (file_url, save_path) \<Rightarrow>
        (case outcome of
           Saved \<Rightarrow> (Inr (), Downloaded (os_path_basename save_path))
         | FetchRaises e \<Rightarrow> (Inr (), FailedToDownload file_url e)))"

text \<open>Lines 89-91, the \<open>Parallel\<close> call; task number \<open>i\<close> meets outcome \<open>fetch i\<close>.\<close>

fun run_downloads ::
  "(nat \<Rightarrow> fetch_outcome) \<Rightarrow> nat \<Rightarrow> task list \<Rightarrow> (exn + unit list) \<times> message list" where
  "run_downloads fetch i [] = (Inr [], [])"
| "run_downloads fetch i (task # tasks) =
     (case download_file (fetch i) task of
        (Inl e, line) \<Rightarrow> (Inl e, [line])
      | (Inr u, line) \<Rightarrow>
          (case run_downloads fetch (Suc i) tasks of
             (Inl e, printed) \<Rightarrow> (Inl e, line # printed)
           | (Inr us, printed) \<Rightarrow> (Inr (u # us), line # printed)))"

text \<open>
  The environment of the orbit script: the list \<open>lst\<close> of line 69 (or the exception of the
  request), the local files the glob of line 72 yields, the CPU count, and the outcome
  of each download.
\<close>

record orbit_env =
  listing :: "exn + string list"
  local_zips :: "string \<Rightarrow> string list"
  orbit_cpu_count :: nat
  fetch :: "nat \<Rightarrow> fetch_outcome"

text \<open>Lines 59-93. The function returns \<open>None\<close>.\<close>

definition downloda_S1_SLC_orbit_list ::
  "orbit_env \<Rightarrow> string \<Rightarrow> string \<Rightarrow> (exn + unit) \<times> message list" where
  "downloda_S1_SLC_orbit_list env zipped_dir orbits_dir =
     (case listing env of
        Inl e \<Rightarrow> (Inl e, [])
      | Inr lst \<Rightarrow>
          (case file_loop lst orbits_dir (local_zips env (os_path_join zipped_dir ''S1A*.zip'')) [] of
             Inl e \<Rightarrow> (Inl e, [])
           | Inr download_tasks \<Rightarrow>
               (let njobs = orbit_njobs (orbit_cpu_count env)
                in case run_downloads (fetch env) 0 download_tasks of
                     (Inl e, printed) \<Rightarrow> (Inl e, printed)
                   | (Inr results, printed) \<Rightarrow> (Inr (), printed))))"

text \<open>Lines 110-115: there is no \<open>sys.exit\<close>, the module body runs to its end.\<close>

definition orbit_main :: "orbit_env \<Rightarrow> string \<Rightarrow> string \<Rightarrow> int" where
  "orbit_main env zipped_dir orbits_dir =
     exit_status
       (case fst (downloda_S1_SLC_orbit_list env zipped_dir orbits_dir) of
          Inl e \<Rightarrow> Inl e
        | Inr u \<Rightarrow> Inr 0)"

section \<open>The extraction script's entry point\<close>

text \<open>\<open>unzip_S1_SLC.py\<close>, lines 125-154.\<close>

definition get_S1_zip_files :: "dir_view \<Rightarrow> exn + string list" where
  "get_S1_zip_files v =
     (if \<not> dir_exists v then Inl FileNotFoundError
      else if \<not> dir_is_dir v then Inl NotADirectoryError
      else Inr (sort (filter (\<lambda>zip_file.
                    prefix ''S1'' (path_name (Path zip_file))
                    \<and> py_in ''.SAFE'' (path_name (Path zip_file)))
                  (dir_glob v))))"

text \<open>
  Line 177 calls \<open>init_pysarlab\<close>, a name that the module neither defines nor imports:
  the call raises \<open>NameError\<close>.
\<close>

definition init_pysarlab :: "exn + unit" where
  "init_pysarlab = Inl NameError"

text \<open>
  Lines 175-205. The parser stores \<open>--job-dir\<close> as \<open>args.job_dir\<close>, so reading
  \<open>args.jobs\<close> in line 197 raises \<open>AttributeError\<close> before \<open>unzip_S1_SLC_list\<close> is called.
\<close>

definition unzip_main :: "(string \<Rightarrow> dir_view) \<Rightarrow> string \<Rightarrow> int" where
  "unzip_main data_view data_dir =
     exit_status
       (case init_pysarlab of
          Inl e \<Rightarrow> Inl e
        | Inr u \<Rightarrow>
            (case get_S1_zip_files (data_view data_dir) of
               Inl e \<Rightarrow> Inl e
             | Inr zip_files \<Rightarrow> if zip_files = [] then Inr 1 else Inl AttributeError))"

section \<open>Properties\<close>

lemma py_trunc_quarter: "py_trunc (real c / 4) = int c div 4"
proof -
  have "\<lfloor>real_of_int (int c) / real_of_int 4\<rfloor> = int c div 4"
    by (rule floor_divide_of_int_eq)
  then show ?thesis by (simp add: py_trunc_def)
qed

text \<open>
  C1. With no explicit override, both parallel executors size their pool as
  \<open>min (max (c div 4) 2) 8\<close> for every CPU count \<open>c\<close>; this is 4 for 16 CPUs and 2 for
  2 CPUs.
\<close>

theorem worker_count_policy:
  "orbit_njobs c = min (max (int c div 4) 2) 8
   \<and> unzip_njobs None c = min (max (int c div 4) 2) 8
   \<and> orbit_njobs 16 = 4 \<and> unzip_njobs None 16 = 4
   \<and> orbit_njobs 2 = 2 \<and> unzip_njobs None 2 = 2"
proof -
  have unzip: "unzip_njobs None k = min (max (int k div 4) 2) 8" for k
    by (simp add: unzip_njobs_def py_trunc_quarter)
  have orbit: "orbit_njobs k = min (max (int k div 4) 2) 8" for k
    by (simp add: orbit_njobs_def)
  show ?thesis
    unfolding unzip orbit by simp
qed

theorem worker_count_policy_witness:
  "orbit_njobs 40 = 8 \<and> unzip_njobs None 40 = 8"
  using worker_count_policy [of 40] by simp

subsection \<open>Extraction of one archive\<close>



text \<open>
  C2. When the destination directory (stem plus \<open>.SAFE\<close>, below the target directory)
  already exists, \<open>unzip_S1_SLC\<close> returns \<open>True\<close> and leaves the world as it was: no
  member is extracted, no log is written. A second run on the resulting state does the
  same, whatever the archive and the disk would do.
\<close>

theorem unzip_skips_extracted:
  assumes "path_exists w (safe_dir_of zip_file target_dir)"
  shows "unzip_S1_SLC env w zip_file target_dir = (Inr True, w)
       \<and> extract_calls (snd (unzip_S1_SLC env w zip_file target_dir)) = extract_calls w
       \<and> unzip_S1_SLC env' (snd (unzip_S1_SLC env w zip_file target_dir)) zip_file target_dir
           = (Inr True, w)"
  using assms by (simp add: unzip_S1_SLC_def)


theorem unzip_skips_extracted_witness:
  "path_exists \<lparr>paths = [\<lparr>anchor = ''/'', comps = [''out'', ''S1A_X.SAFE'']\<rparr>], extract_calls = []\<rparr>
     (safe_dir_of ''/data/S1A_X.zip'' ''/out'')
   \<and> unzip_S1_SLC
         \<lparr>log_open_w = True, archive = Some [(''S1A_X.SAFE/manifest.safe'', Extracted)],
          log_open_a = True\<rparr>
         \<lparr>paths = [\<lparr>anchor = ''/'', comps = [''out'', ''S1A_X.SAFE'']\<rparr>], extract_calls = []\<rparr>
         ''/data/S1A_X.zip'' ''/out''
       = (Inr True,
          \<lparr>paths = [\<lparr>anchor = ''/'', comps = [''out'', ''S1A_X.SAFE'']\<rparr>], extract_calls = []\<rparr>)"
proof -
  have h: "path_exists
      \<lparr>paths = [\<lparr>anchor = ''/'', comps = [''out'', ''S1A_X.SAFE'']\<rparr>], extract_calls = []\<rparr>
      (safe_dir_of ''/data/S1A_X.zip'' ''/out'')"
    by code_simp
  from unzip_skips_extracted [OF h] h show ?thesis by blast
qed


subsection \<open>The step loop\<close>

lemma run_steps_within:
  "run_steps outcome cores scripts steps = (finished, n, started)
     \<Longrightarrow> set (map step started) \<subseteq> set steps"
proof (induction steps arbitrary: finished n started)
  case Nil
  then show ?case by simp
next
  case (Cons i rest)
  show ?case
  proof (cases "matched_scripts scripts i")
    case Nil
    with Cons show ?thesis by auto
  next
    case (Cons s others)
    show ?thesis
    proof (cases "step_succeeds (outcome i)")
      case False
      with Cons Cons.prems show ?thesis by (auto simp: Let_def)
    next
      case True
      obtain f m t where r: "run_steps outcome cores scripts rest = (f, m, t)"
        by (cases "run_steps outcome cores scripts rest") auto
      from Cons.IH [OF r] have sub: "set (map step t) \<subseteq> set rest" .
      from Cons True r Cons.prems
      have "started = \<lparr>step = i, script = s, procs = cores\<rparr> # t"
        by (auto simp: Let_def)
      with sub show ?thesis by auto
    qed
  qed
qed

lemma run_steps_increasing:
  "run_steps outcome cores scripts steps = (finished, n, started)
     \<Longrightarrow> sorted_wrt (<) steps \<Longrightarrow> sorted_wrt (<) (map step started)"
proof (induction steps arbitrary: finished n started)
  case Nil
  then show ?case by simp
next
  case (Cons i rest)
  from Cons.prems(2) have sr: "sorted_wrt (<) rest" and lt: "\<forall>j \<in> set rest. i < j"
    by simp_all
  show ?case
  proof (cases "matched_scripts scripts i")
    case Nil
    with Cons.prems(1) have "run_steps outcome cores scripts rest = (finished, n, started)"
      by simp
    from Cons.IH [OF this sr] show ?thesis .
  next
    case (Cons s others)
    show ?thesis
    proof (cases "step_succeeds (outcome i)")
      case False
      with Cons Cons.prems(1) show ?thesis by (auto simp: Let_def)
    next
      case True
      obtain f m t where r: "run_steps outcome cores scripts rest = (f, m, t)"
        by (cases "run_steps outcome cores scripts rest") auto
      from Cons.IH [OF r sr] have st: "sorted_wrt (<) (map step t)" .
      from run_steps_within [OF r] lt have "\<forall>j \<in> set (map step t). i < j" by blast
      moreover from Cons True r Cons.prems(1)
      have "started = \<lparr>step = i, script = s, procs = cores\<rparr> # t"
        by (auto simp: Let_def)
      ultimately show ?thesis using st by simp
    qed
  qed
qed

lemma run_steps_first_match:
  "run_steps outcome cores scripts steps = (finished, n, started) \<Longrightarrow> call \<in> set started
     \<Longrightarrow> matched_scripts scripts (step call) \<noteq> []
         \<and> script call = hd (matched_scripts scripts (step call))"
proof (induction steps arbitrary: finished n started)
  case Nil
  then show ?case by simp
next
  case (Cons i rest)
  show ?case
  proof (cases "matched_scripts scripts i")
    case Nil
    with Cons show ?thesis by auto
  next
    case (Cons s others)
    show ?thesis
    proof (cases "step_succeeds (outcome i)")
      case False
      with Cons Cons.prems show ?thesis by (auto simp: Let_def)
    next
      case True
      obtain f m t where r: "run_steps outcome cores scripts rest = (f, m, t)"
        by (cases "run_steps outcome cores scripts rest") auto
      with Cons True Cons.prems
      have "call = \<lparr>step = i, script = s, procs = cores\<rparr> \<or> call \<in> set t"
        by (auto simp: Let_def)
      then show ?thesis
      proof
        assume "call = \<lparr>step = i, script = s, procs = cores\<rparr>"
        with Cons show ?thesis by simp
      next
        assume "call \<in> set t"
        from Cons.IH [OF r this] show ?thesis .
      qed
    qed
  qed
qed

lemma run_steps_failure:
  "run_steps outcome cores scripts steps = (finished, n, started) \<Longrightarrow> sorted_wrt (<) steps
     \<Longrightarrow> call \<in> set started \<Longrightarrow> \<not> step_succeeds (outcome (step call))
     \<Longrightarrow> \<not> finished \<and> (\<forall>j \<in> set started. step j \<le> step call)"
proof (induction steps arbitrary: finished n started)
  case Nil
  then show ?case by simp
next
  case (Cons i rest)
  from Cons.prems(2) have sr: "sorted_wrt (<) rest" and lt: "\<forall>j \<in> set rest. i < j"
    by simp_all
  show ?case
  proof (cases "matched_scripts scripts i")
    case Nil
    with Cons.prems(1) have "run_steps outcome cores scripts rest = (finished, n, started)"
      by simp
    from Cons.IH [OF this sr Cons.prems(3,4)] show ?thesis .
  next
    case (Cons s others)
    show ?thesis
    proof (cases "step_succeeds (outcome i)")
      case False
      with Cons Cons.prems(1,3) show ?thesis by (auto simp: Let_def)
    next
      case True
      obtain f m t where r: "run_steps outcome cores scripts rest = (f, m, t)"
        by (cases "run_steps outcome cores scripts rest") auto
      with Cons True Cons.prems(1)
      have fin: "finished = f" and st: "started = \<lparr>step = i, script = s, procs = cores\<rparr> # t"
        by (auto simp: Let_def)
      from st Cons.prems(3,4) True have mem: "call \<in> set t" by auto
      from Cons.IH [OF r sr mem Cons.prems(4)]
      have nf: "\<not> f" and le: "\<forall>j \<in> set t. step j \<le> step call" by simp_all
      from run_steps_within [OF r] mem have "step call \<in> set rest" by auto
      with lt have "i \<le> step call" by auto
      with fin st nf le show ?thesis by simp
    qed
  qed
qed

lemma run_steps_finished:
  "run_steps outcome cores scripts steps = (True, n, started)
     \<Longrightarrow> n = length started
         \<and> (\<forall>call \<in> set started. step_succeeds (outcome (step call)))
         \<and> map step started = filter (\<lambda>i. matched_scripts scripts i \<noteq> []) steps"
proof (induction steps arbitrary: n started)
  case Nil
  then show ?case by simp
next
  case (Cons i rest)
  show ?case
  proof (cases "matched_scripts scripts i")
    case Nil
    with Cons show ?thesis by auto
  next
    case (Cons s others)
    show ?thesis
    proof (cases "step_succeeds (outcome i)")
      case False
      with Cons Cons.prems show ?thesis by (auto simp: Let_def)
    next
      case True
      obtain f m t where r: "run_steps outcome cores scripts rest = (f, m, t)"
        by (cases "run_steps outcome cores scripts rest") auto
      with Cons True Cons.prems
      have f: "f" and n: "n = Suc m" and st: "started = \<lparr>step = i, script = s, procs = cores\<rparr> # t"
        by (auto simp: Let_def)
      from r f have "run_steps outcome cores scripts rest = (True, m, t)" by simp
      from Cons.IH [OF this] n st True Cons show ?thesis by simp
    qed
  qed
qed

lemma run_steps_unfinished:
  "run_steps outcome cores scripts steps = (False, n, started)
     \<Longrightarrow> \<exists>call \<in> set started. \<not> step_succeeds (outcome (step call))"
proof (induction steps arbitrary: n started)
  case Nil
  then show ?case by simp
next
  case (Cons i rest)
  show ?case
  proof (cases "matched_scripts scripts i")
    case Nil
    with Cons show ?thesis by auto
  next
    case (Cons s others)
    show ?thesis
    proof (cases "step_succeeds (outcome i)")
      case False
      with Cons Cons.prems show ?thesis by (auto simp: Let_def)
    next
      case True
      obtain f m t where r: "run_steps outcome cores scripts rest = (f, m, t)"
        by (cases "run_steps outcome cores scripts rest") auto
      with Cons True Cons.prems
      have f: "\<not> f" and st: "started = \<lparr>step = i, script = s, procs = cores\<rparr> # t"
        by (auto simp: Let_def)
      from r f have "run_steps outcome cores scripts rest = (False, m, t)" by simp
      from Cons.IH [OF this] st show ?thesis by auto
    qed
  qed
qed

subsection \<open>The step runner as a whole\<close>

lemma run_stack_shape:
  assumes "run_stack_processing env run_files_dir cores expected_files = (r, started)"
  shows "(started = [] \<and> r \<noteq> Inr True)
       \<or> (\<exists>scripts c finished n.
             find_run_files (run_dir env run_files_dir) = Inr scripts
           \<and> (int (length scripts) = expected_files \<or> answer env = Inr ''y'')
           \<and> run_steps (step_outcome env) c scripts [1..expected_files] = (finished, n, started)
           \<and> r = (if finished
                    then Inr (n = length (found_among_expected scripts expected_files))
                    else Inr False))"
  using assms
  by (auto simp: run_stack_processing_def Let_def split: sum.splits if_splits prod.splits)

lemma run_stack_go:
  assumes "find_run_files (run_dir env run_files_dir) = Inr scripts"
      and "int (length scripts) = expected_files \<or> answer env = Inr ''y''"
  shows "\<exists>c finished n started.
           run_steps (step_outcome env) c scripts [1..expected_files] = (finished, n, started)
         \<and> run_stack_processing env run_files_dir cores expected_files
             = (if finished
                then Inr (n = length (found_among_expected scripts expected_files))
                else Inr False, started)"
  using assms
  by (auto simp: run_stack_processing_def Let_def split: sum.splits if_splits prod.splits)

text \<open>
  C4. If a started step fails (its command exits with a non-zero status, or an exception
  such as the missing tool is raised), then \<open>run_stack_processing\<close> returns \<open>False\<close> and no
  step with a greater index was started.
\<close>

theorem step_failure_halts_run:
  assumes "run_stack_processing env run_files_dir cores expected_files = (r, started)"
      and "call \<in> set started"
      and "\<not> step_succeeds (step_outcome env (step call))"
  shows "r = Inr False \<and> (\<forall>later \<in> set started. step later \<le> step call)"
proof -
  from run_stack_shape [OF assms(1)] assms(2)
  obtain scripts c finished n where
    rs: "run_steps (step_outcome env) c scripts [1..expected_files] = (finished, n, started)"
    and r: "r = (if finished
                 then Inr (n = length (found_among_expected scripts expected_files))
                 else Inr False)"
    by auto
  have "sorted_wrt (<) [1..expected_files]" by simp
  from run_steps_failure [OF rs this assms(2,3)] r show ?thesis by simp
qed

theorem step_failure_halts_run_witness:
  "run_stack_processing
     \<lparr>run_dir = (\<lambda>d. \<lparr>dir_exists = True, dir_is_dir = True,
                       dir_glob = [''/w/run_01_a'', ''/w/run_02_b'', ''/w/run_03_c'',
                                   ''/w/run_04_d'', ''/w/run_05_e'']\<rparr>),
      cpu_count = 8, answer = Inr ''n'',
      step_outcome = (\<lambda>i. if i = 3 then Exited 2 else Exited 0)\<rparr>
     ''/w'' None 5
   = (Inr False,
      [\<lparr>step = 1, script = ''/w/run_01_a'', procs = 4\<rparr>,
       \<lparr>step = 2, script = ''/w/run_02_b'', procs = 4\<rparr>,
       \<lparr>step = 3, script = ''/w/run_03_c'', procs = 4\<rparr>])
   \<and> \<not> step_succeeds (Exited 2) \<and> \<not> step_succeeds (Raises FileNotFoundError)"
proof -
  let ?env = "\<lparr>run_dir = (\<lambda>d. \<lparr>dir_exists = True, dir_is_dir = True,
                       dir_glob = [''/w/run_01_a'', ''/w/run_02_b'', ''/w/run_03_c'',
                                   ''/w/run_04_d'', ''/w/run_05_e'']\<rparr>),
      cpu_count = 8, answer = Inr ''n'',
      step_outcome = (\<lambda>i. if i = 3 then Exited 2 else Exited 0)\<rparr>"
  let ?started = "[\<lparr>step = 1, script = ''/w/run_01_a'', procs = 4\<rparr>,
       \<lparr>step = 2, script = ''/w/run_02_b'', procs = 4\<rparr>,
       \<lparr>step = 3, script = ''/w/run_03_c'', procs = 4\<rparr>]"
  have s: "snd (run_stack_processing ?env ''/w'' None 5) = ?started" by code_simp
  then have h1: "run_stack_processing ?env ''/w'' None 5
      = (fst (run_stack_processing ?env ''/w'' None 5), ?started)"
    by (metis prod.collapse)
  have h2: "\<lparr>step = 3, script = ''/w/run_03_c'', procs = 4\<rparr> \<in> set ?started" by simp
  have h3: "\<not> step_succeeds (step_outcome ?env (step \<lparr>step = 3, script = ''/w/run_03_c'', procs = 4\<rparr>))"
    by (simp add: step_succeeds_def)
  from step_failure_halts_run [OF h1 h2 h3]
  have "fst (run_stack_processing ?env ''/w'' None 5) = Inr False" by simp
  with h1 show ?thesis by (simp add: step_succeeds_def)
qed

text \<open>
  C9, as stated: \<open>run_stack_processing\<close> returns \<open>True\<close> exactly when the number of
  completed steps equals the number of found scripts that carry an expected step number.
  This fails when the function returns before the comparison: one entry \<open>run_notes\<close>,
  sixteen steps expected, and the prompt answered with \<open>n\<close>. No step completes, no found
  script carries an expected number, the two counts agree, and the result is \<open>False\<close>.
\<close>

theorem verdict_counts_counterexample:
  "find_run_files \<lparr>dir_exists = True, dir_is_dir = True, dir_glob = [''/w/run_notes'']\<rparr>
     = Inr [''/w/run_notes'']
   \<and> run_stack_processing
        \<lparr>run_dir = (\<lambda>d. \<lparr>dir_exists = True, dir_is_dir = True, dir_glob = [''/w/run_notes'']\<rparr>),
         cpu_count = 8, answer = Inr ''n'', step_outcome = (\<lambda>i. Exited 0)\<rparr>
        ''/w'' None 16 = (Inr False, [])
   \<and> found_among_expected [''/w/run_notes''] 16 = []"
  by code_simp

text \<open>
  C9, amended. \<open>run_stack_processing\<close> returns \<open>True\<close> exactly when the run files were
  found, the run was not cancelled at the prompt, every started step succeeded, and the
  number of started steps equals the number of found scripts whose base name contains
  \<open>run_\<close> followed by the two-digit form of some \<open>i\<close> from 1 to \<open>expected_files\<close>. The
  number \<open>expected_files\<close> itself is not compared with.
\<close>

theorem final_verdict:
  "fst (run_stack_processing env run_files_dir cores expected_files) = Inr True
   \<longleftrightarrow> (\<exists>scripts.
          find_run_files (run_dir env run_files_dir) = Inr scripts
        \<and> (int (length scripts) = expected_files \<or> answer env = Inr ''y'')
        \<and> (\<forall>call \<in> set (snd (run_stack_processing env run_files_dir cores expected_files)).
              step_succeeds (step_outcome env (step call)))
        \<and> length (snd (run_stack_processing env run_files_dir cores expected_files))
            = length (found_among_expected scripts expected_files))"
  (is "?L \<longleftrightarrow> ?R")
proof
  assume l: ?L
  obtain r started where rs: "run_stack_processing env run_files_dir cores expected_files = (r, started)"
    by (cases "run_stack_processing env run_files_dir cores expected_files")
  with l have r: "r = Inr True" by simp
  from run_stack_shape [OF rs] r
  obtain scripts c finished n where
    f: "find_run_files (run_dir env run_files_dir) = Inr scripts"
    and g: "int (length scripts) = expected_files \<or> answer env = Inr ''y''"
    and st: "run_steps (step_outcome env) c scripts [1..expected_files] = (finished, n, started)"
    and v: "Inr True = (if finished
                 then Inr (n = length (found_among_expected scripts expected_files))
                 else (Inr False :: exn + bool))"
    by auto
  from v have fin: finished and n: "n = length (found_among_expected scripts expected_files)"
    by (auto split: if_splits)
  from st fin have "run_steps (step_outcome env) c scripts [1..expected_files] = (True, n, started)"
    by simp
  from run_steps_finished [OF this]
  have "n = length started"
    and "\<forall>call \<in> set started. step_succeeds (step_outcome env (step call))"
    by simp_all
  with f g n rs show ?R by auto
next
  assume ?R
  then obtain scripts where
    f: "find_run_files (run_dir env run_files_dir) = Inr scripts"
    and g: "int (length scripts) = expected_files \<or> answer env = Inr ''y''"
    and ok: "\<forall>call \<in> set (snd (run_stack_processing env run_files_dir cores expected_files)).
               step_succeeds (step_outcome env (step call))"
    and len: "length (snd (run_stack_processing env run_files_dir cores expected_files))
               = length (found_among_expected scripts expected_files)"
    by blast
  from run_stack_go [OF f g, of cores]
  obtain c finished n started where
    st: "run_steps (step_outcome env) c scripts [1..expected_files] = (finished, n, started)"
    and rs: "run_stack_processing env run_files_dir cores expected_files
             = (if finished
                then Inr (n = length (found_among_expected scripts expected_files))
                else Inr False, started)"
    by blast
  have fin: finished
  proof (rule ccontr)
    assume "\<not> finished"
    with st have "run_steps (step_outcome env) c scripts [1..expected_files] = (False, n, started)"
      by simp
    from run_steps_unfinished [OF this] ok rs show False by auto
  qed
  with st have "run_steps (step_outcome env) c scripts [1..expected_files] = (True, n, started)"
    by simp
  from run_steps_finished [OF this] have "n = length started" by simp
  with fin rs len show ?L by simp
qed

theorem final_verdict_witness:
  "fst (run_stack_processing
          \<lparr>run_dir = (\<lambda>d. \<lparr>dir_exists = True, dir_is_dir = True,
                            dir_glob = [''/w/run_03_c'', ''/w/run_01_a'']\<rparr>),
           cpu_count = 8, answer = Inr ''n'', step_outcome = (\<lambda>i. Exited 0)\<rparr>
          ''/w'' None 2) = Inr True
   \<and> snd (run_stack_processing
          \<lparr>run_dir = (\<lambda>d. \<lparr>dir_exists = True, dir_is_dir = True,
                            dir_glob = [''/w/run_03_c'', ''/w/run_01_a'']\<rparr>),
           cpu_count = 8, answer = Inr ''n'', step_outcome = (\<lambda>i. Exited 0)\<rparr>
          ''/w'' None 2) = [\<lparr>step = 1, script = ''/w/run_01_a'', procs = 4\<rparr>]
   \<and> found_among_expected [''/w/run_01_a'', ''/w/run_03_c''] 2 = [''/w/run_01_a'']
   \<and> matched_scripts [''/w/run_01_a'', ''/w/run_03_c''] 2 = []"
proof -
  let ?env = "\<lparr>run_dir = (\<lambda>d. \<lparr>dir_exists = True, dir_is_dir = True,
                            dir_glob = [''/w/run_03_c'', ''/w/run_01_a'']\<rparr>),
           cpu_count = 8, answer = Inr ''n'', step_outcome = (\<lambda>i. Exited 0)\<rparr>"
  have f: "find_run_files (run_dir ?env ''/w'') = Inr [''/w/run_01_a'', ''/w/run_03_c'']"
    by code_simp
  have g: "int (length [''/w/run_01_a'', ''/w/run_03_c'']) = 2" by simp
  have s: "snd (run_stack_processing ?env ''/w'' None 2)
             = [\<lparr>step = 1, script = ''/w/run_01_a'', procs = 4\<rparr>]"
    by code_simp
  have fae: "found_among_expected [''/w/run_01_a'', ''/w/run_03_c''] 2 = [''/w/run_01_a'']"
    by code_simp
  have m: "matched_scripts [''/w/run_01_a'', ''/w/run_03_c''] 2 = []" by code_simp
  have ok: "\<forall>call \<in> set (snd (run_stack_processing ?env ''/w'' None 2)).
              step_succeeds (step_outcome ?env (step call))"
    by (simp add: s step_succeeds_def)
  have "fst (run_stack_processing ?env ''/w'' None 2) = Inr True"
    unfolding final_verdict using f g ok s fae by auto
  with s fae m show ?thesis by simp
qed

subsection \<open>Coordinate validation\<close>

text \<open>
  C8. Coordinates with \<open>lat_min >= lat_max\<close>, with \<open>lon_min >= lon_max\<close>, with a latitude
  outside \<open>[-90, 90]\<close> or with a longitude outside \<open>[-180, 180]\<close> are rejected by
  \<open>validate_coordinates\<close>; both scripts that validate then exit with status 1 and have
  performed no operation on directories, files or commands.
\<close>

theorem invalid_coordinates_rejected:
  assumes "f_le (lat_max args) (lat_min args)
         \<or> f_le (lon_max args) (lon_min args)
         \<or> \<not> (f_le (Fin (- 90)) (lat_min args) \<and> f_le (lat_min args) (Fin 90))
         \<or> \<not> (f_le (Fin (- 90)) (lat_max args) \<and> f_le (lat_max args) (Fin 90))
         \<or> \<not> (f_le (Fin (- 180)) (lon_min args) \<and> f_le (lon_min args) (Fin 180))
         \<or> \<not> (f_le (Fin (- 180)) (lon_max args) \<and> f_le (lon_max args) (Fin 180))"
  shows "\<not> validate_coordinates args
       \<and> dem_main denv args dem_dir = (1, [])
       \<and> stack_main senv args dem_dir aux_dir slc_dir orbits_dir nalks nrlks process_dir = (1, [])"
proof -
  from assms have "\<not> validate_coordinates args"
    by (auto simp: validate_coordinates_def)
  then show ?thesis by (simp add: dem_main_def stack_main_def)
qed

theorem invalid_coordinates_rejected_witness:
  "f_le (Fin 5) (Fin 10)
   \<and> dem_main \<lparr>dem_log_error = None, dem_proc = Exited 0\<rparr>
        \<lparr>lat_min = Fin 10, lat_max = Fin 5, lon_min = Fin 100, lon_max = Fin 101\<rparr>
        ''dem'' = (1, [])
   \<and> stack_main
        \<lparr>dem_view = (\<lambda>d. \<lparr>dir_exists = True, dir_is_dir = True,
                            dir_glob = [''dem/demLat.dem.wgs84'']\<rparr>),
         float_text = (\<lambda>x. ''0.0''), stack_proc = Exited 0\<rparr>
        \<lparr>lat_min = Fin 10, lat_max = Fin 5, lon_min = Fin 100, lon_max = Fin 101\<rparr>
        ''dem'' ''aux'' ''slc'' ''orbits'' 3 9 ''process'' = (1, [])
   \<and> \<not> f_le (Fin (- 90)) (Fin (- 95))
   \<and> dem_main \<lparr>dem_log_error = None, dem_proc = Exited 0\<rparr>
        \<lparr>lat_min = Fin (- 95), lat_max = Fin 5, lon_min = Fin 100, lon_max = Fin 101\<rparr>
        ''dem'' = (1, [])
   \<and> stack_main
        \<lparr>dem_view = (\<lambda>d. \<lparr>dir_exists = True, dir_is_dir = True,
                            dir_glob = [''dem/demLat.dem.wgs84'']\<rparr>),
         float_text = (\<lambda>x. ''0.0''), stack_proc = Exited 0\<rparr>
        \<lparr>lat_min = Fin (- 95), lat_max = Fin 5, lon_min = Fin 100, lon_max = Fin 101\<rparr>
        ''dem'' ''aux'' ''slc'' ''orbits'' 3 9 ''process'' = (1, [])
   \<and> dem_main \<lparr>dem_log_error = None, dem_proc = Exited 0\<rparr>
        \<lparr>lat_min = Fin 5, lat_max = Fin 10, lon_min = Fin 100, lon_max = Fin 101\<rparr> ''dem''
      = (0, [MakeDir ''dem'', ChangeDir ''dem'',
             OpenLog \<lparr>anchor = [], comps = [''dem'', ''dem.log'']\<rparr>,
             RunCommand [''dem.py'', ''-a'', ''stitch'', ''-b'', ''4'', ''11'', ''99'', ''102'',
                         ''-r'', ''-s'', ''1'', ''-c'']])"
proof -
  let ?denv = "\<lparr>dem_log_error = None, dem_proc = Exited 0\<rparr>"
  let ?senv = "\<lparr>dem_view = (\<lambda>d. \<lparr>dir_exists = True, dir_is_dir = True,
                            dir_glob = [''dem/demLat.dem.wgs84'']\<rparr>),
         float_text = (\<lambda>x. ''0.0''), stack_proc = Exited 0\<rparr>"
  have a: "f_le (Fin 5) (Fin 10)" by simp
  have b: "\<not> f_le (Fin (- 90)) (Fin (- 95))" by simp
  have c: "dem_main ?denv
        \<lparr>lat_min = Fin 5, lat_max = Fin 10, lon_min = Fin 100, lon_max = Fin 101\<rparr> ''dem''
      = (0, [MakeDir ''dem'', ChangeDir ''dem'',
             OpenLog \<lparr>anchor = [], comps = [''dem'', ''dem.log'']\<rparr>,
             RunCommand [''dem.py'', ''-a'', ''stitch'', ''-b'', ''4'', ''11'', ''99'', ''102'',
                         ''-r'', ''-s'', ''1'', ''-c'']])"
    by code_simp
  from invalid_coordinates_rejected
         [of "\<lparr>lat_min = Fin 10, lat_max = Fin 5, lon_min = Fin 100, lon_max = Fin 101\<rparr>"
             ?denv "''dem''" ?senv "''aux''" "''slc''" "''orbits''" 3 9 "''process''"]
       invalid_coordinates_rejected
         [of "\<lparr>lat_min = Fin (- 95), lat_max = Fin 5, lon_min = Fin 100, lon_max = Fin 101\<rparr>"
             ?denv "''dem''" ?senv "''aux''" "''slc''" "''orbits''" 3 9 "''process''"]
       a b c
  show ?thesis by simp
qed

subsection \<open>The orbit-download enumerator\<close>

lemma match_loop_append:
  "match_loop p n orbits_dir lst acc
     = acc @ map (orbit_task orbits_dir) (filter (window_match p n) lst)"
  by (induction lst arbitrary: acc) simp_all

lemma file_loop_tasks:
  "file_loop lst orbits_dir files acc = Inr download_tasks
     \<Longrightarrow> \<exists>windows.
           map file_window files = map Inr windows
         \<and> download_tasks
             = acc @ concat (map (\<lambda>(p, n). map (orbit_task orbits_dir)
                                               (filter (window_match p n) lst)) windows)"
proof (induction files arbitrary: acc)
  case Nil
  then show ?case by simp
next
  case (Cons f files)
  from Cons.prems obtain p n where w: "file_window f = Inr (p, n)"
    by (auto split: sum.splits)
  with Cons.prems
  have "file_loop lst orbits_dir files (match_loop p n orbits_dir lst acc) = Inr download_tasks"
    by simp
  from Cons.IH [OF this] obtain windows where
    ws: "map file_window files = map Inr windows"
    and ts: "download_tasks
             = match_loop p n orbits_dir lst acc
               @ concat (map (\<lambda>(p, n). map (orbit_task orbits_dir)
                                            (filter (window_match p n) lst)) windows)"
    by blast
  from w ws have "map file_window (f # files) = map Inr ((p, n) # windows)" by simp
  moreover from ts
  have "download_tasks
          = acc @ concat (map (\<lambda>(p, n). map (orbit_task orbits_dir)
                                           (filter (window_match p n) lst)) ((p, n) # windows))"
    by (simp add: match_loop_append)
  ultimately show ?case by blast
qed

text \<open>
  C3, as stated: one task for each acquisition date that has a matching remote entry, and
  a task set without duplicates. Two local files of the same day (two slices of one
  pass) and one matching entry give the same task twice.
\<close>

theorem enumerator_duplicates_counterexample:
  "file_loop
     [''S1A_OPER_AUX_POEORB_OPOD_20210203T121500_V20210113T225942_20210115T005942.EOF'']
     ''/orb''
     [''/zips/S1A_IW_SLC__1SDV_20210114T100000_20210114T100027_036123_043C3A_ABCD.zip'',
      ''/zips/S1A_IW_SLC__1SDV_20210114T100025_20210114T100052_036123_043C3A_EF01.zip'']
     []
   = Inr [(''https://s1qc.asf.alaska.edu/aux_poeorb/S1A_OPER_AUX_POEORB_OPOD_20210203T121500_V20210113T225942_20210115T005942.EOF'',
           ''/orb/S1A_OPER_AUX_POEORB_OPOD_20210203T121500_V20210113T225942_20210115T005942.EOF''),
          (''https://s1qc.asf.alaska.edu/aux_poeorb/S1A_OPER_AUX_POEORB_OPOD_20210203T121500_V20210113T225942_20210115T005942.EOF'',
           ''/orb/S1A_OPER_AUX_POEORB_OPOD_20210203T121500_V20210113T225942_20210115T005942.EOF'')]"
  by code_simp

text \<open>
  C3, amended. When the enumeration returns, every local file had a readable date, and
  the task list is, file by file in the order of the local files, one task for each entry
  of the remote listing whose characters \<open>-35..-27\<close> are the previous day and whose
  characters \<open>-19..-11\<close> are the next day, in the order of the listing. A file with one
  matching entry contributes one task, a file with none contributes none; nothing is
  removed afterwards, so the list may repeat a task.
\<close>

theorem enumerator_tasks:
  assumes "file_loop lst orbits_dir files [] = Inr download_tasks"
  shows "\<exists>windows.
           map file_window files = map Inr windows
         \<and> download_tasks
             = concat (map (\<lambda>(p, n). map (orbit_task orbits_dir)
                                         (filter (window_match p n) lst)) windows)"
  using file_loop_tasks [OF assms] by simp

theorem enumerator_tasks_witness:
  "file_loop
     [''S1A_OPER_AUX_POEORB_OPOD_20210203T121500_V20210113T225942_20210115T005942.EOF'',
      ''S1A_OPER_AUX_POEORB_OPOD_20210204T121500_V20210114T225942_20210116T005942.EOF'']
     ''/orb''
     [''/zips/S1A_IW_SLC__1SDV_20210114T100000_20210114T100027_036123_043C3A_ABCD.zip'',
      ''/zips/S1A_IW_SLC__1SDV_20210301T100000_20210301T100027_036123_043C3A_EF01.zip'']
     []
   = Inr [(''https://s1qc.asf.alaska.edu/aux_poeorb/S1A_OPER_AUX_POEORB_OPOD_20210203T121500_V20210113T225942_20210115T005942.EOF'',
           ''/orb/S1A_OPER_AUX_POEORB_OPOD_20210203T121500_V20210113T225942_20210115T005942.EOF'')]
   \<and> (\<exists>windows.
         map file_window
           [''/zips/S1A_IW_SLC__1SDV_20210114T100000_20210114T100027_036123_043C3A_ABCD.zip'',
            ''/zips/S1A_IW_SLC__1SDV_20210301T100000_20210301T100027_036123_043C3A_EF01.zip'']
         = map Inr windows
       \<and> [(''https://s1qc.asf.alaska.edu/aux_poeorb/S1A_OPER_AUX_POEORB_OPOD_20210203T121500_V20210113T225942_20210115T005942.EOF'',
            ''/orb/S1A_OPER_AUX_POEORB_OPOD_20210203T121500_V20210113T225942_20210115T005942.EOF'')]
          = concat (map (\<lambda>(p, n). map (orbit_task ''/orb'')
               (filter (window_match p n)
                  [''S1A_OPER_AUX_POEORB_OPOD_20210203T121500_V20210113T225942_20210115T005942.EOF'',
                   ''S1A_OPER_AUX_POEORB_OPOD_20210204T121500_V20210114T225942_20210116T005942.EOF'']))
               windows))"
proof -
  have h: "file_loop
     [''S1A_OPER_AUX_POEORB_OPOD_20210203T121500_V20210113T225942_20210115T005942.EOF'',
      ''S1A_OPER_AUX_POEORB_OPOD_20210204T121500_V20210114T225942_20210116T005942.EOF'']
     ''/orb''
     [''/zips/S1A_IW_SLC__1SDV_20210114T100000_20210114T100027_036123_043C3A_ABCD.zip'',
      ''/zips/S1A_IW_SLC__1SDV_20210301T100000_20210301T100027_036123_043C3A_EF01.zip'']
     []
   = Inr [(''https://s1qc.asf.alaska.edu/aux_poeorb/S1A_OPER_AUX_POEORB_OPOD_20210203T121500_V20210113T225942_20210115T005942.EOF'',
           ''/orb/S1A_OPER_AUX_POEORB_OPOD_20210203T121500_V20210113T225942_20210115T005942.EOF'')]"
    by code_simp
  from enumerator_tasks [OF h] h show ?thesis by blast
qed

subsection \<open>The parallel batches\<close>

lemma run_unzip_tasks_length:
  "run_unzip_tasks envs i w zip_files target_dir = (Inr results, w')
     \<Longrightarrow> length results = length zip_files"
proof (induction zip_files arbitrary: i w results w')
  case Nil
  then show ?case by simp
next
  case (Cons z zs)
  from Cons.prems obtain b w1 bs where
    "run_unzip_tasks envs (Suc i) w1 zs target_dir = (Inr bs, w')" and "results = b # bs"
    by (auto split: prod.splits sum.splits)
  with Cons.IH show ?case by auto
qed

lemma py_sum_bounds: "0 \<le> py_sum bs \<and> py_sum bs \<le> int (length bs)"
  by (induction bs) (auto simp: py_sum_def)

lemma unzip_batch_counts:
  assumes "fst (unzip_S1_SLC_list envs w zip_files target_dir n_jobs cpus) = Inr (successful, failed)"
  shows "successful + failed = int (length zip_files) \<and> 0 \<le> successful \<and> 0 \<le> failed"
proof -
  from assms obtain results w' where
    r: "run_unzip_tasks envs 0 (makedirs w (Path target_dir)) zip_files target_dir = (Inr results, w')"
    and s: "successful = py_sum results"
    and f: "failed = int (length results) - py_sum results"
    by (auto simp: unzip_S1_SLC_list_def Let_def split: if_splits prod.splits sum.splits)
  from run_unzip_tasks_length [OF r] have "length results = length zip_files" .
  with s f py_sum_bounds [of results] show ?thesis by simp
qed

lemma unzip_returns:
  assumes "log_open_a env"
  shows "\<exists>b w'. unzip_S1_SLC env w zip_file target_dir = (Inr b, w')"
  using assms
  by (auto simp: unzip_S1_SLC_def unzip_attempt_def Let_def split: prod.splits bool.splits)

lemma run_unzip_tasks_returns:
  assumes "\<forall>k. i \<le> k \<and> k < i + length zip_files \<longrightarrow> log_open_a (envs k)"
  shows "\<exists>results w'. run_unzip_tasks envs i w zip_files target_dir = (Inr results, w')"
  using assms
proof (induction zip_files arbitrary: i w)
  case Nil
  then show ?case by simp
next
  case (Cons z zs)
  from Cons.prems have "log_open_a (envs i)" by simp
  from unzip_returns [OF this] obtain b w1 where
    u: "unzip_S1_SLC (envs i) w z target_dir = (Inr b, w1)" by blast
  from Cons.prems have "\<forall>k. Suc i \<le> k \<and> k < Suc i + length zs \<longrightarrow> log_open_a (envs k)"
    by simp
  from Cons.IH [OF this] obtain bs w2 where
    "run_unzip_tasks envs (Suc i) w1 zs target_dir = (Inr bs, w2)" by blast
  with u show ?case by simp
qed

lemma run_downloads_all:
  "run_downloads outs i tasks = (Inr (replicate (length tasks) ()), map (\<lambda>(k, t). snd (download_file (outs k) t)) (zip [i..<i + length tasks] tasks))"
proof (induction tasks arbitrary: i)
  case Nil
  then show ?case by simp
next
  case (Cons t ts)
  have d: "fst (download_file (outs i) t) = Inr ()"
    by (cases t; cases "outs i") (simp_all add: download_file_def)
  have "[i..<i + length (t # ts)] = i # [Suc i..<Suc i + length ts]"
    by (simp add: upt_rec)
  with Cons [of "Suc i"] d show ?case
    by (cases "download_file (outs i) t") simp
qed

text \<open>
  C5, as stated: every found \<open>run_*\<close> script is executed exactly once. With two scripts
  and a first step that exits with status 1, the second script is found and never run.
\<close>

theorem found_script_not_run_counterexample:
  "find_run_files \<lparr>dir_exists = True, dir_is_dir = True,
                   dir_glob = [''/w/run_01_a'', ''/w/run_02_b'']\<rparr>
     = Inr [''/w/run_01_a'', ''/w/run_02_b'']
   \<and> run_stack_processing
        \<lparr>run_dir = (\<lambda>d. \<lparr>dir_exists = True, dir_is_dir = True,
                          dir_glob = [''/w/run_01_a'', ''/w/run_02_b'']\<rparr>),
         cpu_count = 8, answer = Inr ''n'',
         step_outcome = (\<lambda>i. if i = 1 then Exited 1 else Exited 0)\<rparr>
        ''/w'' None 2
     = (Inr False, [\<lparr>step = 1, script = ''/w/run_01_a'', procs = 4\<rparr>])"
  by code_simp

text \<open>
  C5, amended. When the unzip batch returns its counts, \<open>successful + failed\<close> is the
  number of input zip files. In the step runner the started commands have strictly
  increasing step numbers between 1 and \<open>expected_files\<close>, each running the first found
  script whose base name contains that step's \<open>run_NN\<close>; and when the run is not
  cancelled and no started step fails, the started steps are exactly the step numbers
  that have a matching script.
\<close>

theorem batch_accounting:
  "(fst (unzip_S1_SLC_list envs w zip_files target_dir n_jobs cpus) = Inr (successful, failed)
      \<longrightarrow> successful + failed = int (length zip_files) \<and> 0 \<le> successful \<and> 0 \<le> failed)
   \<and> (run_stack_processing env run_files_dir cores expected_files = (r, started)
      \<longrightarrow> sorted_wrt (<) (map step started)
        \<and> set (map step started) \<subseteq> {1..expected_files}
        \<and> (\<forall>scripts. find_run_files (run_dir env run_files_dir) = Inr scripts
             \<longrightarrow> (\<forall>call \<in> set started.
                    matched_scripts scripts (step call) \<noteq> []
                  \<and> script call = hd (matched_scripts scripts (step call)))
               \<and> ((int (length scripts) = expected_files \<or> answer env = Inr ''y'')
                  \<and> (\<forall>call \<in> set started. step_succeeds (step_outcome env (step call)))
                  \<longrightarrow> map step started
                      = filter (\<lambda>i. matched_scripts scripts i \<noteq> []) [1..expected_files])))"
proof (intro conjI impI allI)
  assume "fst (unzip_S1_SLC_list envs w zip_files target_dir n_jobs cpus) = Inr (successful, failed)"
  from unzip_batch_counts [OF this]
  show "successful + failed = int (length zip_files)" and "0 \<le> successful" and "0 \<le> failed"
    by simp_all
next
  assume rs: "run_stack_processing env run_files_dir cores expected_files = (r, started)"
  from run_stack_shape [OF rs]
  show "sorted_wrt (<) (map step started)"
  proof
    assume "started = [] \<and> r \<noteq> Inr True"
    then show ?thesis by simp
  next
    assume "\<exists>scripts c finished n.
             find_run_files (run_dir env run_files_dir) = Inr scripts
           \<and> (int (length scripts) = expected_files \<or> answer env = Inr ''y'')
           \<and> run_steps (step_outcome env) c scripts [1..expected_files] = (finished, n, started)
           \<and> r = (if finished
                    then Inr (n = length (found_among_expected scripts expected_files))
                    else Inr False)"
    then obtain scripts c finished n where
      "run_steps (step_outcome env) c scripts [1..expected_files] = (finished, n, started)"
      by blast
    from run_steps_increasing [OF this] show ?thesis by simp
  qed
next
  assume rs: "run_stack_processing env run_files_dir cores expected_files = (r, started)"
  from run_stack_shape [OF rs]
  show "set (map step started) \<subseteq> {1..expected_files}"
  proof
    assume "started = [] \<and> r \<noteq> Inr True"
    then show ?thesis by simp
  next
    assume "\<exists>scripts c finished n.
             find_run_files (run_dir env run_files_dir) = Inr scripts
           \<and> (int (length scripts) = expected_files \<or> answer env = Inr ''y'')
           \<and> run_steps (step_outcome env) c scripts [1..expected_files] = (finished, n, started)
           \<and> r = (if finished
                    then Inr (n = length (found_among_expected scripts expected_files))
                    else Inr False)"
    then obtain scripts c finished n where
      "run_steps (step_outcome env) c scripts [1..expected_files] = (finished, n, started)"
      by blast
    from run_steps_within [OF this] show ?thesis by simp
  qed
next
  fix scripts
  assume rs: "run_stack_processing env run_files_dir cores expected_files = (r, started)"
    and f: "find_run_files (run_dir env run_files_dir) = Inr scripts"
  from run_stack_shape [OF rs] f
  have "started = [] \<or> (\<exists>c finished n.
          run_steps (step_outcome env) c scripts [1..expected_files] = (finished, n, started))"
    by auto
  then show "\<forall>call \<in> set started.
               matched_scripts scripts (step call) \<noteq> []
             \<and> script call = hd (matched_scripts scripts (step call))"
  proof
    assume "started = []"
    then show ?thesis by simp
  next
    assume "\<exists>c finished n.
          run_steps (step_outcome env) c scripts [1..expected_files] = (finished, n, started)"
    then obtain c finished n where
      "run_steps (step_outcome env) c scripts [1..expected_files] = (finished, n, started)"
      by blast
    from run_steps_first_match [OF this] show ?thesis by blast
  qed
next
  fix scripts
  assume rs: "run_stack_processing env run_files_dir cores expected_files = (r, started)"
    and f: "find_run_files (run_dir env run_files_dir) = Inr scripts"
    and g: "(int (length scripts) = expected_files \<or> answer env = Inr ''y'')
            \<and> (\<forall>call \<in> set started. step_succeeds (step_outcome env (step call)))"
  from g have g1: "int (length scripts) = expected_files \<or> answer env = Inr ''y''"
    and ok: "\<forall>call \<in> set started. step_succeeds (step_outcome env (step call))"
    by simp_all
  from run_stack_go [OF f g1, of cores] rs
  obtain c finished n where
    st: "run_steps (step_outcome env) c scripts [1..expected_files] = (finished, n, started)"
    by auto
  have finished
  proof (rule ccontr)
    assume "\<not> finished"
    with st have "run_steps (step_outcome env) c scripts [1..expected_files] = (False, n, started)"
      by simp
    from run_steps_unfinished [OF this] ok show False by blast
  qed
  with st have "run_steps (step_outcome env) c scripts [1..expected_files] = (True, n, started)"
    by simp
  from run_steps_finished [OF this]
  show "map step started = filter (\<lambda>i. matched_scripts scripts i \<noteq> []) [1..expected_files]"
    by simp
qed

theorem batch_accounting_witness:
  "fst (unzip_S1_SLC_list
          (\<lambda>k. if k = 0 then \<lparr>log_open_w = True, archive = None, log_open_a = True\<rparr>
                else \<lparr>log_open_w = True,
                      archive = Some [(''S1A_Y.SAFE/manifest.safe'', Extracted)],
                      log_open_a = True\<rparr>)
          \<lparr>paths = [], extract_calls = []\<rparr>
          [''/data/S1A_X.zip'', ''/data/S1A_Y.zip''] ''/out'' None 8) = Inr (1, 1)
   \<and> (1::int) + 1 = int (length [''/data/S1A_X.zip'', ''/data/S1A_Y.zip''])
   \<and> run_stack_processing
        \<lparr>run_dir = (\<lambda>d. \<lparr>dir_exists = True, dir_is_dir = True,
                          dir_glob = [''/w/run_02_b'', ''/w/run_01_a'', ''/w/run_01_z'']\<rparr>),
         cpu_count = 8, answer = Inr ''y'', step_outcome = (\<lambda>i. Exited 0)\<rparr>
        ''/w'' None 2
     = (Inr False, [\<lparr>step = 1, script = ''/w/run_01_a'', procs = 4\<rparr>,
                    \<lparr>step = 2, script = ''/w/run_02_b'', procs = 4\<rparr>])
   \<and> map step [\<lparr>step = 1, script = ''/w/run_01_a'', procs = 4\<rparr>,
                \<lparr>step = 2, script = ''/w/run_02_b'', procs = 4\<rparr>]
     = filter (\<lambda>i. matched_scripts [''/w/run_01_a'', ''/w/run_01_z'', ''/w/run_02_b''] i \<noteq> [])
         [1..2]"
proof -
  let ?envs = "\<lambda>k::nat. if k = 0 then \<lparr>log_open_w = True, archive = None, log_open_a = True\<rparr>
                else \<lparr>log_open_w = True,
                      archive = Some [(''S1A_Y.SAFE/manifest.safe'', Extracted)],
                      log_open_a = True\<rparr>"
  let ?env = "\<lparr>run_dir = (\<lambda>d. \<lparr>dir_exists = True, dir_is_dir = True,
                          dir_glob = [''/w/run_02_b'', ''/w/run_01_a'', ''/w/run_01_z'']\<rparr>),
         cpu_count = 8, answer = Inr ''y'', step_outcome = (\<lambda>i. Exited 0)\<rparr>"
  let ?started = "[\<lparr>step = 1, script = ''/w/run_01_a'', procs = 4\<rparr>,
                    \<lparr>step = 2, script = ''/w/run_02_b'', procs = 4\<rparr>]"
  have u: "fst (unzip_S1_SLC_list ?envs \<lparr>paths = [], extract_calls = []\<rparr>
          [''/data/S1A_X.zip'', ''/data/S1A_Y.zip''] ''/out'' None 8) = Inr (1, 1)"
    by code_simp
  have r: "run_stack_processing ?env ''/w'' None 2 = (Inr False, ?started)"
    by code_simp
  have f: "find_run_files (run_dir ?env ''/w'')
             = Inr [''/w/run_01_a'', ''/w/run_01_z'', ''/w/run_02_b'']"
    by code_simp
  have ok: "(int (length [''/w/run_01_a'', ''/w/run_01_z'', ''/w/run_02_b'']) = 2
              \<or> answer ?env = Inr ''y'')
            \<and> (\<forall>call \<in> set ?started. step_succeeds (step_outcome ?env (step call)))"
    by (simp add: step_succeeds_def)
  note b = batch_accounting [of ?envs "\<lparr>paths = [], extract_calls = []\<rparr>"
      "[''/data/S1A_X.zip'', ''/data/S1A_Y.zip'']" "''/out''" None 8 1 1
      ?env "''/w''" None 2 "Inr False" ?started]
  from b u have "(1::int) + 1 = int (length [''/data/S1A_X.zip'', ''/data/S1A_Y.zip''])"
    by blast
  moreover from b r f ok
  have "map step ?started
     = filter (\<lambda>i. matched_scripts [''/w/run_01_a'', ''/w/run_01_z'', ''/w/run_02_b''] i \<noteq> [])
         [1..2]"
    by blast
  ultimately show ?thesis using u r by blast
qed

text \<open>
  C7, as stated: a failed task is turned into a per-task failure result that reaches an
  aggregate verdict. In the download batch a task that raises returns the same value as
  a task that saves its file, and the batch returns the same value in both cases.
\<close>

theorem download_failure_unreported_counterexample:
  "download_file (FetchRaises OtherError) (''https://host/a.EOF'', ''/orb/a.EOF'')
     = (Inr (), FailedToDownload ''https://host/a.EOF'' OtherError)
   \<and> download_file Saved (''https://host/a.EOF'', ''/orb/a.EOF'')
     = (Inr (), Downloaded ''a.EOF'')
   \<and> fst (run_downloads (\<lambda>k. FetchRaises OtherError) 0 [(''https://host/a.EOF'', ''/orb/a.EOF'')])
     = fst (run_downloads (\<lambda>k. Saved) 0 [(''https://host/a.EOF'', ''/orb/a.EOF'')])"
  by code_simp

text \<open>
  The extraction task differs in another way: when the handler's own \<open>open\<close> of the log
  raises, the exception leaves \<open>unzip_S1_SLC\<close> and the \<open>Parallel\<close> call, and the batch has
  no counts at all.
\<close>

lemma unzip_handler_raises:
  "\<not> log_open_w env \<Longrightarrow> \<not> log_open_a env
     \<Longrightarrow> \<not> path_exists w (safe_dir_of zip_file target_dir)
     \<Longrightarrow> unzip_S1_SLC env w zip_file target_dir = (Inl OtherError, w)"
  by (simp add: unzip_S1_SLC_def unzip_attempt_def unzip_try_def)

text \<open>
  C7, amended. In the download batch every exception of a task's action is caught inside
  \<open>download_file\<close>, which returns normally and without a result, so every task of the
  batch is run and the batch returns normally. In the extraction batch every exception
  raised in the \<open>try\<close> block of a task is caught in that task and, provided the handler's
  own opening of the log succeeds, turned into the result \<open>False\<close>; when that holds for
  all tasks (and the job count is not zero) the batch returns counts that cover every
  task.
\<close>

theorem task_failures_isolated:
  "fst (download_file outcome task) = Inr ()
   \<and> fst (run_downloads outs i tasks) = Inr (replicate (length tasks) ())
   \<and> length (snd (run_downloads outs i tasks)) = length tasks
   \<and> (log_open_a env
        \<longrightarrow> (\<exists>b w'. unzip_S1_SLC env w zip_file target_dir = (Inr b, w')))
   \<and> (log_open_a env \<and> \<not> path_exists w (safe_dir_of zip_file target_dir)
        \<and> \<not> fst (unzip_try env w (log_file_of zip_file target_dir) (Path target_dir))
        \<longrightarrow> fst (unzip_S1_SLC env w zip_file target_dir) = Inr False)
   \<and> ((\<forall>k < length zip_files. log_open_a (envs k)) \<and> unzip_njobs n_jobs cpus \<noteq> 0
        \<longrightarrow> (\<exists>successful failed w'.
               unzip_S1_SLC_list envs w zip_files target_dir n_jobs cpus
                 = (Inr (successful, failed), w')
             \<and> successful + failed = int (length zip_files)))"
proof (intro conjI impI)
  show "fst (download_file outcome task) = Inr ()"
    by (cases task; cases outcome) (simp_all add: download_file_def)
  show "fst (run_downloads outs i tasks) = Inr (replicate (length tasks) ())"
    by (simp add: run_downloads_all)
  show "length (snd (run_downloads outs i tasks)) = length tasks"
    by (simp add: run_downloads_all)
next
  assume "log_open_a env"
  then show "\<exists>b w'. unzip_S1_SLC env w zip_file target_dir = (Inr b, w')"
    by (rule unzip_returns)
next
  assume "log_open_a env \<and> \<not> path_exists w (safe_dir_of zip_file target_dir)
        \<and> \<not> fst (unzip_try env w (log_file_of zip_file target_dir) (Path target_dir))"
  then show "fst (unzip_S1_SLC env w zip_file target_dir) = Inr False"
    by (auto simp: unzip_S1_SLC_def unzip_attempt_def Let_def split: prod.splits bool.splits)
next
  assume a: "(\<forall>k < length zip_files. log_open_a (envs k)) \<and> unzip_njobs n_jobs cpus \<noteq> 0"
  then have "\<forall>k. 0 \<le> k \<and> k < 0 + length zip_files \<longrightarrow> log_open_a (envs k)" by simp
  from run_unzip_tasks_returns [OF this]
  obtain results w' where
    r: "run_unzip_tasks envs 0 (makedirs w (Path target_dir)) zip_files target_dir
          = (Inr results, w')"
    by blast
  with a have u: "unzip_S1_SLC_list envs w zip_files target_dir n_jobs cpus
          = (Inr (py_sum results, int (length results) - py_sum results), w')"
    by (simp add: unzip_S1_SLC_list_def Let_def)
  then have "fst (unzip_S1_SLC_list envs w zip_files target_dir n_jobs cpus)
          = Inr (py_sum results, int (length results) - py_sum results)"
    by simp
  from unzip_batch_counts [OF this] u
  show "\<exists>successful failed w'.
               unzip_S1_SLC_list envs w zip_files target_dir n_jobs cpus
                 = (Inr (successful, failed), w')
             \<and> successful + failed = int (length zip_files)"
    by blast
qed

theorem task_failures_isolated_witness:
  "unzip_njobs None 8 \<noteq> 0
   \<and> fst (unzip_S1_SLC_list
          (\<lambda>k. if k = 0 then \<lparr>log_open_w = True, archive = None, log_open_a = True\<rparr>
                else \<lparr>log_open_w = True,
                      archive = Some [(''S1A_Y.SAFE/manifest.safe'', Extracted)],
                      log_open_a = True\<rparr>)
          \<lparr>paths = [], extract_calls = []\<rparr>
          [''/data/S1A_X.zip'', ''/data/S1A_Y.zip''] ''/out'' None 8) = Inr (1, 1)
   \<and> fst (unzip_S1_SLC \<lparr>log_open_w = True, archive = None, log_open_a = True\<rparr>
          \<lparr>paths = [], extract_calls = []\<rparr> ''/data/S1A_X.zip'' ''/out'') = Inr False
   \<and> fst (download_file (FetchRaises OtherError) (''https://host/a.EOF'', ''/orb/a.EOF''))
       = Inr ()"
proof -
  let ?bad = "\<lparr>log_open_w = True, archive = None, log_open_a = True\<rparr>"
  let ?envs = "\<lambda>k::nat. if k = 0 then ?bad
                else \<lparr>log_open_w = True,
                      archive = Some [(''S1A_Y.SAFE/manifest.safe'', Extracted)],
                      log_open_a = True\<rparr>"
  let ?w = "\<lparr>paths = [], extract_calls = []\<rparr>"
  have a: "\<forall>k < length [''/data/S1A_X.zip'', ''/data/S1A_Y.zip'']. log_open_a (?envs k)"
    by simp
  have n: "unzip_njobs None 8 \<noteq> 0" by code_simp
  have u: "fst (unzip_S1_SLC_list ?envs ?w
          [''/data/S1A_X.zip'', ''/data/S1A_Y.zip''] ''/out'' None 8) = Inr (1, 1)"
    by code_simp
  have h: "log_open_a ?bad \<and> \<not> path_exists ?w (safe_dir_of ''/data/S1A_X.zip'' ''/out'')
        \<and> \<not> fst (unzip_try ?bad ?w (log_file_of ''/data/S1A_X.zip'' ''/out'') (Path ''/out''))"
    by code_simp
  note t = task_failures_isolated [of "FetchRaises OtherError" "(''https://host/a.EOF'', ''/orb/a.EOF'')"
      "\<lambda>k. Saved" 0 "[]" ?bad ?w "''/data/S1A_X.zip''" "''/out''"
      "[''/data/S1A_X.zip'', ''/data/S1A_Y.zip'']" ?envs None 8]
  from t h have "fst (unzip_S1_SLC ?bad ?w ''/data/S1A_X.zip'' ''/out'') = Inr False"
    by blast
  moreover from t
  have "fst (download_file (FetchRaises OtherError) (''https://host/a.EOF'', ''/orb/a.EOF''))
       = Inr ()"
    by blast
  ultimately show ?thesis using a n u by blast
qed

subsection \<open>Exit statuses\<close>

lemma unzip_main_status: "unzip_main data_view data_dir = 1"
  by (simp add: unzip_main_def init_pysarlab_def exit_status_def)

text \<open>
  C6, as stated: every entry point exits with status 1 on any failure, the orbit download
  in particular when a download task fails. With one task whose download raises, the
  orbit script prints the failure and exits with status 0.
\<close>

theorem orbit_exit_status_counterexample:
  "downloda_S1_SLC_orbit_list
     \<lparr>listing = Inr [''S1A_OPER_AUX_POEORB_OPOD_20210203T121500_V20210113T225942_20210115T005942.EOF''],
      local_zips = (\<lambda>pattern.
        [''/zips/S1A_IW_SLC__1SDV_20210114T100000_20210114T100027_036123_043C3A_ABCD.zip'']),
      orbit_cpu_count = 8,
      fetch = (\<lambda>k. FetchRaises OtherError)\<rparr>
     ''/zips'' ''/orb''
   = (Inr (),
      [FailedToDownload
         ''https://s1qc.asf.alaska.edu/aux_poeorb/S1A_OPER_AUX_POEORB_OPOD_20210203T121500_V20210113T225942_20210115T005942.EOF''
         OtherError])
   \<and> orbit_main
     \<lparr>listing = Inr [''S1A_OPER_AUX_POEORB_OPOD_20210203T121500_V20210113T225942_20210115T005942.EOF''],
      local_zips = (\<lambda>pattern.
        [''/zips/S1A_IW_SLC__1SDV_20210114T100000_20210114T100027_036123_043C3A_ABCD.zip'']),
      orbit_cpu_count = 8,
      fetch = (\<lambda>k. FetchRaises OtherError)\<rparr>
     ''/zips'' ''/orb'' = 0"
  by code_simp

text \<open>
  C6, amended. The step runner, the DEM download and the stack generation exit with
  status 0 when their operation returns \<open>True\<close> and with status 1 otherwise: on a
  rejected input, a failed or missing tool, an exception nobody catches, or a
  confirmation prompt answered with anything but \<open>y\<close>. The orbit download keeps no
  account of failures: it exits with status 0 whenever the listing was fetched and the
  dates of the local files were read, whatever happened to the download tasks.
\<close>

theorem exit_statuses:
  "runstack_main env run_files_dir cores expected_files
     = (if fst (run_stack_processing env run_files_dir cores expected_files) = Inr True
        then 0 else 1)
   \<and> (find_run_files (run_dir env run_files_dir) = Inr scripts
        \<and> int (length scripts) \<noteq> expected_files
        \<and> answer env = Inr response \<and> response \<noteq> ''y''
        \<longrightarrow> runstack_main env run_files_dir cores expected_files = 1)
   \<and> fst (dem_main denv args dem_dir)
     = (if validate_coordinates args \<and> fst (download_S1_SLC_dem denv args dem_dir) = Inr True
        then 0 else 1)
   \<and> fst (stack_main senv args dem_dir aux_dir slc_dir orbits_dir nalks nrlks process_dir)
     = (if validate_coordinates args \<and> validate_parameters nalks nrlks
           \<and> fst (stack_sentinel senv args dem_dir aux_dir slc_dir orbits_dir nalks nrlks
                    process_dir) = Inr True
        then 0 else 1)
   \<and> orbit_main oenv zipped_dir orbit_dir
     = (case fst (downloda_S1_SLC_orbit_list oenv zipped_dir orbit_dir) of
          Inl e \<Rightarrow> 1
        | Inr u \<Rightarrow> 0)
   \<and> (listing oenv = Inr lst
        \<and> file_loop lst orbit_dir (local_zips oenv (os_path_join zipped_dir ''S1A*.zip'')) []
            = Inr download_tasks
        \<longrightarrow> orbit_main oenv zipped_dir orbit_dir = 0)"
proof (intro conjI impI)
  show "runstack_main env run_files_dir cores expected_files
     = (if fst (run_stack_processing env run_files_dir cores expected_files) = Inr True
        then 0 else 1)"
    by (simp add: runstack_main_def exit_status_def split: sum.splits)
next
  assume "find_run_files (run_dir env run_files_dir) = Inr scripts
        \<and> int (length scripts) \<noteq> expected_files
        \<and> answer env = Inr response \<and> response \<noteq> ''y''"
  then have "fst (run_stack_processing env run_files_dir cores expected_files) = Inr False"
    by (simp add: run_stack_processing_def Let_def)
  then show "runstack_main env run_files_dir cores expected_files = 1"
    by (simp add: runstack_main_def exit_status_def)
next
  show "fst (dem_main denv args dem_dir)
     = (if validate_coordinates args \<and> fst (download_S1_SLC_dem denv args dem_dir) = Inr True
        then 0 else 1)"
    by (simp add: dem_main_def exit_status_def split: prod.splits sum.splits)
next
  show "fst (stack_main senv args dem_dir aux_dir slc_dir orbits_dir nalks nrlks process_dir)
     = (if validate_coordinates args \<and> validate_parameters nalks nrlks
           \<and> fst (stack_sentinel senv args dem_dir aux_dir slc_dir orbits_dir nalks nrlks
                    process_dir) = Inr True
        then 0 else 1)"
    by (simp add: stack_main_def exit_status_def split: prod.splits sum.splits)
next
  show "orbit_main oenv zipped_dir orbit_dir
     = (case fst (downloda_S1_SLC_orbit_list oenv zipped_dir orbit_dir) of
          Inl e \<Rightarrow> 1
        | Inr u \<Rightarrow> 0)"
    by (simp add: orbit_main_def exit_status_def split: sum.splits)
next
  assume "listing oenv = Inr lst
        \<and> file_loop lst orbit_dir (local_zips oenv (os_path_join zipped_dir ''S1A*.zip'')) []
            = Inr download_tasks"
  then have "fst (downloda_S1_SLC_orbit_list oenv zipped_dir orbit_dir) = Inr ()"
    by (simp add: downloda_S1_SLC_orbit_list_def Let_def run_downloads_all)
  then show "orbit_main oenv zipped_dir orbit_dir = 0"
    by (simp add: orbit_main_def exit_status_def)
qed

theorem exit_statuses_witness:
  "runstack_main
     \<lparr>run_dir = (\<lambda>d. \<lparr>dir_exists = True, dir_is_dir = True,
                       dir_glob = [''/w/run_01_a'', ''/w/run_02_b'']\<rparr>),
      cpu_count = 8, answer = Inr ''n'', step_outcome = (\<lambda>i. Exited 0)\<rparr>
     ''/w'' None 16 = 1
   \<and> runstack_main
     \<lparr>run_dir = (\<lambda>d. \<lparr>dir_exists = True, dir_is_dir = True,
                       dir_glob = [''/w/run_01_a'', ''/w/run_02_b'']\<rparr>),
      cpu_count = 8, answer = Inr ''n'', step_outcome = (\<lambda>i. Exited 0)\<rparr>
     ''/w'' None 2 = 0
   \<and> orbit_main
     \<lparr>listing = Inr [''S1A_OPER_AUX_POEORB_OPOD_20210203T121500_V20210113T225942_20210115T005942.EOF''],
      local_zips = (\<lambda>pattern.
        [''/zips/S1A_IW_SLC__1SDV_20210114T100000_20210114T100027_036123_043C3A_ABCD.zip'']),
      orbit_cpu_count = 8,
      fetch = (\<lambda>k. FetchRaises OtherError)\<rparr>
     ''/zips'' ''/orb'' = 0"
proof -
  let ?env = "\<lparr>run_dir = (\<lambda>d. \<lparr>dir_exists = True, dir_is_dir = True,
                       dir_glob = [''/w/run_01_a'', ''/w/run_02_b'']\<rparr>),
      cpu_count = 8, answer = Inr ''n'', step_outcome = (\<lambda>i. Exited 0)\<rparr>"
  let ?oenv = "\<lparr>listing = Inr [''S1A_OPER_AUX_POEORB_OPOD_20210203T121500_V20210113T225942_20210115T005942.EOF''],
      local_zips = (\<lambda>pattern.
        [''/zips/S1A_IW_SLC__1SDV_20210114T100000_20210114T100027_036123_043C3A_ABCD.zip'']),
      orbit_cpu_count = 8,
      fetch = (\<lambda>k. FetchRaises OtherError)\<rparr>"
  let ?lst = "[''S1A_OPER_AUX_POEORB_OPOD_20210203T121500_V20210113T225942_20210115T005942.EOF'']"
  let ?tasks = "[(''https://s1qc.asf.alaska.edu/aux_poeorb/S1A_OPER_AUX_POEORB_OPOD_20210203T121500_V20210113T225942_20210115T005942.EOF'',
           ''/orb/S1A_OPER_AUX_POEORB_OPOD_20210203T121500_V20210113T225942_20210115T005942.EOF'')]"
  have c: "find_run_files (run_dir ?env ''/w'') = Inr [''/w/run_01_a'', ''/w/run_02_b'']
        \<and> int (length [''/w/run_01_a'', ''/w/run_02_b'']) \<noteq> 16
        \<and> answer ?env = Inr ''n'' \<and> ''n'' \<noteq> ''y''"
    by code_simp
  have t: "fst (run_stack_processing ?env ''/w'' None 2) = Inr True" by code_simp
  have o: "listing ?oenv = Inr ?lst
        \<and> file_loop ?lst ''/orb'' (local_zips ?oenv (os_path_join ''/zips'' ''S1A*.zip'')) []
            = Inr ?tasks"
    by code_simp
  from exit_statuses [of ?env "''/w''" None 16 "[''/w/run_01_a'', ''/w/run_02_b'']" "''n''"] c
  have 1: "runstack_main ?env ''/w'' None 16 = 1" by blast
  from exit_statuses [of ?env "''/w''" None 2] t
  have 2: "runstack_main ?env ''/w'' None 2 = 0" by simp
  from exit_statuses [where oenv = ?oenv and zipped_dir = "''/zips''" and orbit_dir = "''/orb''"
                       and lst = ?lst and download_tasks = ?tasks] o
  have 3: "orbit_main ?oenv ''/zips'' ''/orb'' = 0" by blast
  from 1 2 3 show ?thesis by blast
qed

end
